theory Spec2Isabelle
  imports Complex_Main "HOL-Library.Word" "HOL-Library.Log_Nat" "HOL-Library.AList"
begin

unbundle bit_operations_syntax

section \<open>JavaScript numbers\<close>

text \<open>
  The relay system (\<^verbatim>\<open>createRelaySystem\<close> and its helpers) computes on JavaScript
  \<^verbatim>\<open>number\<close>s, which are IEEE-754 binary64 values. A finite value is kept as the
  rational it denotes; the two infinities and NaN are separate constructors. The sign of
  zero is not represented: no operation used by the relay system distinguishes the two
  zeros (they are equal under \<^verbatim>\<open>===\<close>, floor to zero, and are stored as the integer 0).
\<close>

datatype number = Num rat | NaN | PosInf | NegInf

text \<open>\<open>pow2 e\<close> is the rational \<open>2\<^sup>e\<close> for any integer exponent.\<close>

definition pow2 :: "int \<Rightarrow> rat" where
  "pow2 e = (if 0 \<le> e then 2 ^ nat e else 1 / 2 ^ nat (- e))"

text \<open>
  \<open>binade x\<close> is the exponent \<open>e\<close> with \<open>2\<^sup>e \<le> \<bar>x\<bar> < 2\<^sup>e\<^sup>+\<^sup>1\<close> of a non-zero rational,
  found from the bit lengths of numerator and denominator.
\<close>

definition binade :: "rat \<Rightarrow> int" where
  "binade x = (case quotient_of \<bar>x\<bar> of (n, d) \<Rightarrow>
     let k = bitlen n - bitlen d in if pow2 k \<le> \<bar>x\<bar> then k else k - 1)"

definition round_half_even :: "rat \<Rightarrow> int" where
  "round_half_even x = (let f = \<lfloor>x\<rfloor>; r = x - of_int f in
     if r < 1 / 2 then f else if 1 / 2 < r then f + 1 else if even f then f else f + 1)"

text \<open>
  \<open>fl x\<close> rounds the exact result \<open>x\<close> of an arithmetic operation to binary64, to nearest
  with ties to even: 53 significant bits in the normal range, a spacing of \<open>2\<^sup>-\<^sup>1\<^sup>0\<^sup>7\<^sup>4\<close>
  below \<open>2\<^sup>-\<^sup>1\<^sup>0\<^sup>2\<^sup>2\<close>, and an infinity when the rounded magnitude reaches \<open>2\<^sup>1\<^sup>0\<^sup>2\<^sup>4\<close>.
\<close>

definition fl :: "rat \<Rightarrow> number" where
  "fl x = (if x = 0 then Num 0 else
     let e = max (binade x) (- 1022);
         u = pow2 (e - 52);
         m = round_half_even (x / u)
     in if 1024 \<le> e \<or> (e = 1023 \<and> \<bar>m\<bar> = 2 ^ 53)
        then (if 0 < x then PosInf else NegInf)
        else Num (of_int m * u))"

fun js_neg :: "number \<Rightarrow> number" where
  "js_neg (Num a) = Num (- a)"
| "js_neg NaN = NaN"
| "js_neg PosInf = NegInf"
| "js_neg NegInf = PosInf"

fun js_add :: "number \<Rightarrow> number \<Rightarrow> number" where
  "js_add (Num a) (Num b) = fl (a + b)"
| "js_add NaN _ = NaN"
| "js_add _ NaN = NaN"
| "js_add PosInf NegInf = NaN"
| "js_add NegInf PosInf = NaN"
| "js_add PosInf _ = PosInf"
| "js_add NegInf _ = NegInf"
| "js_add (Num a) b = b"

definition js_sub :: "number \<Rightarrow> number \<Rightarrow> number" where
  "js_sub a b = js_add a (js_neg b)"

fun js_mul :: "number \<Rightarrow> number \<Rightarrow> number" where
  "js_mul (Num a) (Num b) = fl (a * b)"
| "js_mul NaN _ = NaN"
| "js_mul _ NaN = NaN"
| "js_mul (Num a) PosInf = (if a = 0 then NaN else if 0 < a then PosInf else NegInf)"
| "js_mul (Num a) NegInf = (if a = 0 then NaN else if 0 < a then NegInf else PosInf)"
| "js_mul PosInf (Num b) = (if b = 0 then NaN else if 0 < b then PosInf else NegInf)"
| "js_mul NegInf (Num b) = (if b = 0 then NaN else if 0 < b then NegInf else PosInf)"
| "js_mul PosInf PosInf = PosInf"
| "js_mul PosInf NegInf = NegInf"
| "js_mul NegInf PosInf = NegInf"
| "js_mul NegInf NegInf = PosInf"

text \<open>Division; a zero divisor is taken as \<open>+0\<close> (the relay system only divides by 100 and 64).\<close>

fun js_div :: "number \<Rightarrow> number \<Rightarrow> number" where
  "js_div (Num a) (Num b) =
     (if b = 0 then (if a = 0 then NaN else if 0 < a then PosInf else NegInf) else fl (a / b))"
| "js_div NaN _ = NaN"
| "js_div _ NaN = NaN"
| "js_div (Num a) PosInf = Num 0"
| "js_div (Num a) NegInf = Num 0"
| "js_div PosInf (Num b) = (if 0 \<le> b then PosInf else NegInf)"
| "js_div NegInf (Num b) = (if 0 \<le> b then NegInf else PosInf)"
| "js_div PosInf PosInf = NaN"
| "js_div PosInf NegInf = NaN"
| "js_div NegInf PosInf = NaN"
| "js_div NegInf NegInf = NaN"

text \<open>\<^verbatim>\<open>Math.floor\<close>: exact on finite values, the identity on NaN and the infinities.\<close>

fun Math_floor :: "number \<Rightarrow> number" where
  "Math_floor (Num a) = Num (of_int \<lfloor>a\<rfloor>)"
| "Math_floor NaN = NaN"
| "Math_floor PosInf = PosInf"
| "Math_floor NegInf = NegInf"

text \<open>\<^verbatim>\<open>Math.pow(10, p)\<close> for a small natural exponent: the power of ten, rounded.\<close>

definition Math_pow10 :: "nat \<Rightarrow> number" where
  "Math_pow10 p = fl (10 ^ p)"

fun isFinite :: "number \<Rightarrow> bool" where
  "isFinite (Num a) = True"
| "isFinite NaN = False"
| "isFinite PosInf = False"
| "isFinite NegInf = False"

text \<open>
  \<^verbatim>\<open>ToInt32\<close>, the conversion applied by a store into an \<^verbatim>\<open>Int32Array\<close>: NaN and the
  infinities become 0, a finite value is truncated towards zero and reduced modulo \<open>2\<^sup>3\<^sup>2\<close>.
\<close>

fun ToInt32 :: "number \<Rightarrow> 32 word" where
  "ToInt32 (Num a) = word_of_int (if 0 \<le> a then \<lfloor>a\<rfloor> else \<lceil>a\<rceil>)"
| "ToInt32 NaN = 0"
| "ToInt32 PosInf = 0"
| "ToInt32 NegInf = 0"

text \<open>
  Number-to-string conversion of a template literal. Exact for NaN, the infinities and
  the integers below \<open>10\<^sup>2\<^sup>1\<close> in magnitude (decimal digits, a leading \<open>-\<close> when negative),
  which covers every chunk coordinate \<^verbatim>\<open>Math.floor\<close> can produce from a decoded position
  or from an area around a position of that size. Fractions and larger integers, which
  JavaScript prints with a decimal point or an exponent, are not modelled: the digits of
  the integer part stand in.
\<close>

fun digits :: "nat \<Rightarrow> string" where
  "digits n = (if n < 10 then [char_of (48 + n)] else digits (n div 10) @ [char_of (48 + n mod 10)])"

fun Number_toString :: "number \<Rightarrow> string" where
  "Number_toString (Num a) = (if a < 0 then ''-'' else '''') @ digits (nat \<lfloor>\<bar>a\<bar>\<rfloor>)"
| "Number_toString NaN = ''NaN''"
| "Number_toString PosInf = ''Infinity''"
| "Number_toString NegInf = ''-Infinity''"

section \<open>Constants of the relay system\<close>

definition PRECISION :: nat where
  "PRECISION = 2"

definition UNRESPONSIVE_PLAYER_CLEANUP :: int where
  "UNRESPONSIVE_PLAYER_CLEANUP = 2000"

definition TIMEOUT :: int where
  "TIMEOUT = 1000"

definition RELAY_CHUNK_SIZE :: number where
  "RELAY_CHUNK_SIZE = Num 64"

definition HALF_LENGTH :: number where
  "HALF_LENGTH = RELAY_CHUNK_SIZE"

section \<open>Fixed-point codec\<close>

definition toFixedPoint :: "number \<Rightarrow> number" where
  "toFixedPoint n = Math_floor (js_mul n (Math_pow10 PRECISION))"

definition fromFixedPoint :: "number \<Rightarrow> number" where
  "fromFixedPoint n = js_div n (Math_pow10 PRECISION)"

datatype error = RangeError | TypeError | NoValueError

type_synonym Uint8Array = "8 word list"

text \<open>
  Modelled from the spec: the byte helpers \<^verbatim>\<open>Int32ArrayToUint8Array\<close>,
  \<^verbatim>\<open>concatUint8Arrays\<close>, \<^verbatim>\<open>splitUint8Arrays\<close> and \<^verbatim>\<open>Uint8ArrayToInt32Array\<close> of
  \<^verbatim>\<open>@latticexyz/utils\<close> are not among the sources. The spec gives the layout: every scalar
  is a 4-byte signed integer, least significant byte first, and a message is three position
  scalars followed by four direction scalars. Where the spec says nothing the helpers are
  taken to do what the typed arrays of their names do: a store into an \<^verbatim>\<open>Int32Array\<close>
  applies \<open>ToInt32\<close>, and a \<^verbatim>\<open>Uint8Array\<close> filled from positions past the end of the data
  holds 0 there. None of them tests the length of a message; \<open>encodeMessage\<close> and
  \<open>decodeMessage\<close>, which call them, do not either.

  \<^verbatim>\<open>Int32ArrayToUint8Array\<close> stores every number into an \<^verbatim>\<open>Int32Array\<close> and returns the
  bytes of its buffer.
\<close>

definition int32_bytes :: "32 word \<Rightarrow> Uint8Array" where
  "int32_bytes w = [ucast w, ucast (drop_bit 8 w), ucast (drop_bit 16 w), ucast (drop_bit 24 w)]"

definition Int32ArrayToUint8Array :: "number list \<Rightarrow> Uint8Array" where
  "Int32ArrayToUint8Array input = concat (map (\<lambda>n. int32_bytes (ToInt32 n)) input)"

text \<open>\<^verbatim>\<open>concatUint8Arrays\<close> copies its argument arrays, in order, into one array.\<close>

definition concatUint8Arrays :: "Uint8Array list \<Rightarrow> Uint8Array" where
  "concatUint8Arrays arrays = concat arrays"

definition encodeMessage :: "number list \<Rightarrow> number list \<Rightarrow> Uint8Array" where
  "encodeMessage position direction =
     (let transformedData = map toFixedPoint (position @ direction);
          data = Int32ArrayToUint8Array transformedData
      in concatUint8Arrays [data])"

text \<open>
  \<^verbatim>\<open>splitUint8Arrays\<close> fills one fresh array per requested length from consecutive bytes
  of the data. Reading past the end of the data gives \<^verbatim>\<open>undefined\<close>, which a
  \<^verbatim>\<open>Uint8Array\<close> stores as 0; bytes after the requested lengths are not read.
\<close>

definition read_byte :: "Uint8Array \<Rightarrow> nat \<Rightarrow> 8 word" where
  "read_byte data i = (if i < length data then data ! i else 0)"

fun split_from :: "nat \<Rightarrow> Uint8Array \<Rightarrow> nat list \<Rightarrow> Uint8Array list" where
  "split_from i data [] = []"
| "split_from i data (len # lens) =
     map (\<lambda>j. read_byte data (i + j)) [0..<len] # split_from (i + len) data lens"

definition splitUint8Arrays :: "Uint8Array \<Rightarrow> nat list \<Rightarrow> Uint8Array list" where
  "splitUint8Arrays data byteLengths = split_from 0 data byteLengths"

text \<open>
  \<^verbatim>\<open>Uint8ArrayToInt32Array\<close> views the bytes as an \<^verbatim>\<open>Int32Array\<close> (a \<^verbatim>\<open>RangeError\<close> when
  their number is not a multiple of 4) and returns its elements as numbers.
\<close>

definition bytes_int32 :: "8 word \<Rightarrow> 8 word \<Rightarrow> 8 word \<Rightarrow> 8 word \<Rightarrow> 32 word" where
  "bytes_int32 b0 b1 b2 b3 =
     ucast b0 OR push_bit 8 (ucast b1) OR push_bit 16 (ucast b2) OR push_bit 24 (ucast b3)"

definition int32_number :: "32 word \<Rightarrow> number" where
  "int32_number w = Num (of_int (sint w))"

fun Uint8ArrayToInt32Array :: "Uint8Array \<Rightarrow> error + number list" where
  "Uint8ArrayToInt32Array [] = Inr []"
| "Uint8ArrayToInt32Array (b0 # b1 # b2 # b3 # bs) =
     (case Uint8ArrayToInt32Array bs of
        Inl e \<Rightarrow> Inl e
      | Inr ns \<Rightarrow> Inr (int32_number (bytes_int32 b0 b1 b2 b3) # ns))"
| "Uint8ArrayToInt32Array _ = Inl RangeError"

record decoded =
  position :: "number list"
  direction :: "number list"

definition decodeMessage :: "Uint8Array \<Rightarrow> error + decoded" where
  "decodeMessage data =
     (case splitUint8Arrays data [12, 16] of
        positionBytes # directionBytes # _ \<Rightarrow>
          (case Uint8ArrayToInt32Array positionBytes of
             Inl e \<Rightarrow> Inl e
           | Inr p \<Rightarrow>
               (case Uint8ArrayToInt32Array directionBytes of
                  Inl e \<Rightarrow> Inl e
                | Inr d \<Rightarrow>
                    Inr \<lparr>position = map fromFixedPoint p, direction = map fromFixedPoint d\<rparr>))
      | _ \<Rightarrow> Inl TypeError)"

text \<open>
  The value the specification gives for a decoded scalar, \<open>floor(v * 100) / 100\<close>, read as
  the JavaScript expression \<^verbatim>\<open>Math.floor(v * 100) / 100\<close>.
\<close>

definition spec_quantized :: "number \<Rightarrow> number" where
  "spec_quantized v = js_div (Math_floor (js_mul v (Num 100))) (Num 100)"

text \<open>
  The integer the amended claim C2 puts on the wire for a scalar: \<^verbatim>\<open>Math.floor(value * 100)\<close>
  reduced modulo \<open>2\<^sup>3\<^sup>2\<close> into the signed 32-bit range, and 0 when \<^verbatim>\<open>Math.floor(value * 100)\<close>
  is NaN or infinite.
\<close>

definition spec_wire_int :: "number \<Rightarrow> int" where
  "spec_wire_int v =
     (case Math_floor (js_mul v (Num 100)) of
        Num q \<Rightarrow> signed_take_bit 31 \<lfloor>q\<rfloor>
      | NaN \<Rightarrow> 0 | PosInf \<Rightarrow> 0 | NegInf \<Rightarrow> 0)"

text \<open>A quantised value that an \<^verbatim>\<open>Int32Array\<close> element holds unchanged.\<close>

definition in_int32 :: "number \<Rightarrow> bool" where
  "in_int32 n = (case n of Num q \<Rightarrow> - (2 ^ 31) \<le> q \<and> q < 2 ^ 31 | _ \<Rightarrow> False)"

section \<open>Chunk index and visible area\<close>

datatype VoxelCoord = VoxelCoord (vx: number) (vy: number) (vz: number)

datatype ChunkCoord = ChunkCoord (cx: number) (cy: number)

datatype Area = Area (ax: number) (ay: number) (width: number) (height: number)

definition createChunkTopicMessage :: "ChunkCoord \<Rightarrow> string" where
  "createChunkTopicMessage chunk =
     ''c('' @ Number_toString (cx chunk) @ '','' @ Number_toString (cy chunk) @ '')''"

text \<open>
  Modelled from the spec: \<^verbatim>\<open>pixelToChunkCoord\<close> of \<^verbatim>\<open>@latticexyz/phaserx\<close> is not among
  the sources. The chunk of a point is the component-wise floor of the coordinate divided
  by the chunk size.
\<close>

definition pixelToChunkCoord :: "number \<times> number \<Rightarrow> number \<Rightarrow> ChunkCoord" where
  "pixelToChunkCoord pixelCoord chunkSize =
     ChunkCoord (Math_floor (js_div (fst pixelCoord) chunkSize))
                (Math_floor (js_div (snd pixelCoord) chunkSize))"

text \<open>The area around the observer (\<^verbatim>\<open>currentArea$\<close>) and the observer's own chunk (\<^verbatim>\<open>currentChunk$\<close>).\<close>

definition currentArea :: "VoxelCoord \<Rightarrow> Area" where
  "currentArea c =
     Area (js_sub (vx c) HALF_LENGTH) (js_sub (vz c) HALF_LENGTH)
          (js_mul HALF_LENGTH (Num 2)) (js_mul HALF_LENGTH (Num 2))"

definition currentChunk :: "VoxelCoord \<Rightarrow> ChunkCoord" where
  "currentChunk vc = pixelToChunkCoord (vx vc, vz vc) RELAY_CHUNK_SIZE"

text \<open>
  Modelled from the spec: \<^verbatim>\<open>getChunksInArea\<close> and \<^verbatim>\<open>createChunks\<close> of
  \<^verbatim>\<open>@latticexyz/phaserx\<close> are not among the sources. The visible chunks of an area are the
  chunks that overlap it: every chunk from the chunk of the area's corner \<open>(x, y)\<close> to the
  chunk of its opposite corner \<open>(x + width, y + height)\<close>, both included. An area with a
  non-finite corner has no chunks. \<^verbatim>\<open>createChunks\<close> widens the area by its padding on
  every side (the relay system passes padding 0), diffs the chunks of each new area against
  the current set, reports the chunks that fell out and the chunks that came in, and
  replaces the current set.
\<close>

definition getChunksInArea :: "Area \<Rightarrow> number \<Rightarrow> (ChunkCoord \<times> bool) list" where
  "getChunksInArea area chunkSize =
     (let topLeft = pixelToChunkCoord (ax area, ay area) chunkSize;
          bottomRight = pixelToChunkCoord
            (js_add (ax area) (width area), js_add (ay area) (height area)) chunkSize
      in case (cx topLeft, cy topLeft, cx bottomRight, cy bottomRight) of
           (Num x0, Num y0, Num x1, Num y1) \<Rightarrow>
             concat (map (\<lambda>x. map (\<lambda>y. (ChunkCoord (Num (of_int x)) (Num (of_int y)), True))
                                    [\<lfloor>y0\<rfloor>..\<lfloor>y1\<rfloor>]) [\<lfloor>x0\<rfloor>..\<lfloor>x1\<rfloor>])
         | _ \<Rightarrow> [])"

definition pad_area :: "Area \<Rightarrow> number \<Rightarrow> Area" where
  "pad_area area padding =
     Area (js_sub (ax area) padding) (js_sub (ay area) padding)
          (js_add (width area) (js_mul (Num 2) padding))
          (js_add (height area) (js_mul (Num 2) padding))"

definition subtract :: "(ChunkCoord \<times> bool) list \<Rightarrow> (ChunkCoord \<times> bool) list \<Rightarrow> ChunkCoord list" where
  "subtract from sub = filter (\<lambda>c. map_of sub c \<noteq> Some True) (remdups (map fst from))"

section \<open>Entity-component store\<close>

text \<open>
  Modelled from the spec: the entity-component store (\<^verbatim>\<open>@latticexyz/recs\<close>) is not among
  the sources. A component holds at most one value per entity; an entity is created for an
  address on first use and found again afterwards; a query returns the entities that have
  the listed components (with the listed value).
\<close>

type_synonym EntityID = string
type_synonym EntityIndex = nat
type_synonym 'v component = "(EntityIndex \<times> 'v) list"

definition setComponent :: "'v component \<Rightarrow> EntityIndex \<Rightarrow> 'v \<Rightarrow> 'v component" where
  "setComponent c entity v = AList.update entity v c"

definition removeComponent :: "'v component \<Rightarrow> EntityIndex \<Rightarrow> 'v component" where
  "removeComponent c entity = AList.delete entity c"

definition getComponentValue :: "'v component \<Rightarrow> EntityIndex \<Rightarrow> 'v option" where
  "getComponentValue c entity = map_of c entity"

definition getComponentValueStrict :: "'v component \<Rightarrow> EntityIndex \<Rightarrow> error + 'v" where
  "getComponentValueStrict c entity =
     (case map_of c entity of None \<Rightarrow> Inl NoValueError | Some v \<Rightarrow> Inr v)"

definition Has :: "'v component \<Rightarrow> EntityIndex \<Rightarrow> bool" where
  "Has c entity = (map_of c entity \<noteq> None)"

definition HasValue :: "'v component \<Rightarrow> 'v \<Rightarrow> EntityIndex \<Rightarrow> bool" where
  "HasValue c v entity = (map_of c entity = Some v)"

definition component_entities :: "'v component \<Rightarrow> EntityIndex list" where
  "component_entities c = remdups (map fst c)"

fun index_of :: "'a \<Rightarrow> 'a list \<Rightarrow> nat option" where
  "index_of a [] = None"
| "index_of a (b # bs) = (if a = b then Some 0 else map_option Suc (index_of a bs))"

definition registerEntity :: "EntityID list \<Rightarrow> EntityID \<Rightarrow> EntityIndex \<times> EntityID list" where
  "registerEntity es ident =
     (case index_of ident es of Some i \<Rightarrow> (i, es) | None \<Rightarrow> (length es, es @ [ident]))"

section \<open>The relay system\<close>

datatype Quaternion = Quaternion (qx: number) (qy: number) (qz: number) (qw: number)

datatype relay_call = Subscribe string | Unsubscribe string | Push string Uint8Array

text \<open>
  The state \<^verbatim>\<open>createRelaySystem\<close> works on: the world's entities, the four player
  components, the current visible chunks of \<^verbatim>\<open>createChunks\<close>, and the calls made on the
  relay so far (latest last).
\<close>

record relay_state =
  entities :: "EntityID list"
  PlayerPosition :: "VoxelCoord component"
  PlayerDirection :: "Quaternion component"
  PlayerRelayerChunkPosition :: "ChunkCoord component"
  PlayerLastMessage :: "int component"
  visibleChunks :: "(ChunkCoord \<times> bool) list"
  relay_calls :: "relay_call list"

text \<open>What the four player components hold for an entity.\<close>

definition player_state ::
    "relay_state \<Rightarrow> EntityIndex \<Rightarrow>
       VoxelCoord option \<times> Quaternion option \<times> ChunkCoord option \<times> int option" where
  "player_state s e =
     (getComponentValue (PlayerPosition s) e, getComponentValue (PlayerDirection s) e,
      getComponentValue (PlayerRelayerChunkPosition s) e, getComponentValue (PlayerLastMessage s) e)"

definition initial_state :: relay_state where
  "initial_state = \<lparr>entities = [], PlayerPosition = [], PlayerDirection = [],
     PlayerRelayerChunkPosition = [], PlayerLastMessage = [], visibleChunks = [],
     relay_calls = []\<rparr>"

text \<open>The relay's three operations, recorded in \<open>relay_calls\<close>.\<close>

definition relay_subscribe :: "string \<Rightarrow> relay_state \<Rightarrow> relay_state" where
  "relay_subscribe topic s = s\<lparr>relay_calls := relay_calls s @ [Subscribe topic]\<rparr>"

definition relay_unsubscribe :: "string \<Rightarrow> relay_state \<Rightarrow> relay_state" where
  "relay_unsubscribe topic s = s\<lparr>relay_calls := relay_calls s @ [Unsubscribe topic]\<rparr>"

definition relay_push :: "string \<Rightarrow> Uint8Array \<Rightarrow> relay_state \<Rightarrow> relay_state" where
  "relay_push topic payload s = s\<lparr>relay_calls := relay_calls s @ [Push topic payload]\<rparr>"

definition removePlayerComponent :: "EntityIndex \<Rightarrow> relay_state \<Rightarrow> relay_state" where
  "removePlayerComponent entity s =
     s\<lparr>PlayerPosition := removeComponent (PlayerPosition s) entity,
       PlayerDirection := removeComponent (PlayerDirection s) entity,
       PlayerRelayerChunkPosition := removeComponent (PlayerRelayerChunkPosition s) entity,
       PlayerLastMessage := removeComponent (PlayerLastMessage s) entity\<rparr>"

text \<open>The initial subscription: one \<^verbatim>\<open>subscribe\<close> per chunk of the first area.\<close>

definition initialSubscription :: "Area \<Rightarrow> relay_state \<Rightarrow> relay_state" where
  "initialSubscription initialArea s =
     fold (\<lambda>c. relay_subscribe (createChunkTopicMessage c))
       (map fst (getChunksInArea initialArea RELAY_CHUNK_SIZE)) s"

definition addedChunkSubscription :: "ChunkCoord \<Rightarrow> relay_state \<Rightarrow> relay_state" where
  "addedChunkSubscription chunk s = relay_subscribe (createChunkTopicMessage chunk) s"

text \<open>
  The query of the removed-chunk subscription:
  \<^verbatim>\<open>[Has(PlayerDirection), Has(PlayerPosition), HasValue(PlayerRelayerChunkPosition, chunk)]\<close>.
\<close>

definition removedPlayers :: "relay_state \<Rightarrow> ChunkCoord \<Rightarrow> EntityIndex list" where
  "removedPlayers s chunk =
     filter (\<lambda>e. Has (PlayerPosition s) e \<and> HasValue (PlayerRelayerChunkPosition s) chunk e)
            (component_entities (PlayerDirection s))"

definition removedChunksSubcription :: "ChunkCoord \<Rightarrow> relay_state \<Rightarrow> relay_state" where
  "removedChunksSubcription chunk s =
     (let rs = removedPlayers s chunk;
          s1 = relay_unsubscribe (createChunkTopicMessage chunk) s
      in fold removePlayerComponent rs s1)"

definition relayPositionAndDirection ::
    "ChunkCoord \<Rightarrow> number list \<Rightarrow> number list \<Rightarrow> relay_state \<Rightarrow> relay_state" where
  "relayPositionAndDirection chunk pos dir s =
     relay_push (createChunkTopicMessage chunk) (encodeMessage pos dir) s"

text \<open>
  The periodic publication (\<^verbatim>\<open>relaySubscription\<close>): the observer's position \<open>p\<close> and the
  quaternion \<open>q\<close> computed from the camera's pitch and heading (by the rendering library,
  not modelled) are relayed on the topic of the chunk of \<open>latest\<close>, the last sample of the
  chunk stream (\<^verbatim>\<open>currentChunkComputed\<close>).
\<close>

definition relaySubscription ::
    "VoxelCoord \<Rightarrow> VoxelCoord \<Rightarrow> Quaternion \<Rightarrow> relay_state \<Rightarrow> relay_state" where
  "relaySubscription latest p q s =
     relayPositionAndDirection (currentChunk latest) [vx p, vy p, vz p] [qx q, qy q, qz q, qw q] s"

text \<open>
  Modelled from the spec: the map that holds the visible chunks (\<^verbatim>\<open>CoordMap\<close> of
  \<^verbatim>\<open>@latticexyz/utils\<close>) is not among the sources. The spec asks of it a membership query
  on a chunk. The library keeps an entry under the 32-bit key \<^verbatim>\<open>(x << 16) | (y & 0xffff)\<close>
  of its coordinate and answers \<^verbatim>\<open>has\<close> and \<^verbatim>\<open>get\<close> by the key of the coordinate asked
  for, a later entry replacing an earlier one of the same key; the model follows it, so
  that two coordinates that agree modulo \<open>2\<^sup>1\<^sup>6\<close> in both components are one key.
  \<open>CoordMap_get\<close> is \<^verbatim>\<open>get\<close> (\<open>None\<close> for \<^verbatim>\<open>undefined\<close>); \<^verbatim>\<open>has\<close> holds when it is not \<open>None\<close>.
\<close>

definition coordToKey :: "ChunkCoord \<Rightarrow> 32 word" where
  "coordToKey coord = push_bit 16 (ToInt32 (cx coord)) OR (ToInt32 (cy coord) AND 65535)"

definition CoordMap_get :: "(ChunkCoord \<times> 'v) list \<Rightarrow> ChunkCoord \<Rightarrow> 'v option" where
  "CoordMap_get m coord = map_of (rev (map (\<lambda>e. (coordToKey (fst e), snd e)) m)) (coordToKey coord)"

text \<open>
  The handler of inbound relay events. \<open>connectedAddress\<close> is the value of
  \<^verbatim>\<open>connectedAddress.get()\<close>, \<open>now\<close> the value of \<^verbatim>\<open>Date.now()\<close>. The branch for a decoded
  array that is too short to destructure is never taken (\<open>decodeMessage\<close> returns three and
  four numbers).
\<close>

definition rxMessage ::
    "string option \<Rightarrow> int \<Rightarrow> Uint8Array \<Rightarrow> string \<Rightarrow> relay_state \<Rightarrow> error + relay_state" where
  "rxMessage connectedAddress now data address s =
     (case decodeMessage data of
        Inl e \<Rightarrow> Inl e
      | Inr m \<Rightarrow>
          (case (position m, direction m) of
             (x # y # z # _, q0 # q1 # q2 # q3 # _) \<Rightarrow>
               if connectedAddress = Some address then Inr s
               else
                 let playerChunk = pixelToChunkCoord (x, z) RELAY_CHUNK_SIZE in
                 if CoordMap_get (visibleChunks s) playerChunk = None
                    \<or> CoordMap_get (visibleChunks s) playerChunk \<noteq> Some True
                 then Inr s
                 else
                   (case registerEntity (entities s) address of
                      (entity, es) \<Rightarrow>
                        Inr (s\<lparr>entities := es,
                               PlayerPosition :=
                                 setComponent (PlayerPosition s) entity (VoxelCoord x y z),
                               PlayerDirection :=
                                 setComponent (PlayerDirection s) entity (Quaternion q0 q1 q2 q3),
                               PlayerLastMessage :=
                                 setComponent (PlayerLastMessage s) entity now\<rparr>))
           | _ \<Rightarrow> Inl TypeError))"

text \<open>The liveness sweep, run every \<open>UNRESPONSIVE_PLAYER_CLEANUP\<close> milliseconds.\<close>

fun cleanup_loop :: "int \<Rightarrow> EntityIndex list \<Rightarrow> relay_state \<Rightarrow> error + relay_state" where
  "cleanup_loop timeOut [] s = Inr s"
| "cleanup_loop timeOut (player # players) s =
     (case getComponentValueStrict (PlayerLastMessage s) player of
        Inl e \<Rightarrow> Inl e
      | Inr lastMessage \<Rightarrow>
          cleanup_loop timeOut players
            (if lastMessage < timeOut then removePlayerComponent player s else s))"

definition rxCleanup :: "int \<Rightarrow> relay_state \<Rightarrow> error + relay_state" where
  "rxCleanup now s =
     (let allPlayers = component_entities (PlayerLastMessage s);
          timeOut = now - TIMEOUT
      in cleanup_loop timeOut allPlayers s)"

text \<open>
  The subscriber of \<^verbatim>\<open>createChunks\<close> on the area stream (see the text above
  \<open>getChunksInArea\<close>), with the relay system's two subscriptions run on each reported chunk.
\<close>

definition areaChanged :: "Area \<Rightarrow> relay_state \<Rightarrow> relay_state" where
  "areaChanged area s =
     (let newVisibleChunks = getChunksInArea (pad_area area (Num 0)) RELAY_CHUNK_SIZE;
          removed = subtract (visibleChunks s) newVisibleChunks;
          added = subtract newVisibleChunks (visibleChunks s);
          s1 = fold removedChunksSubcription removed s;
          s2 = fold addedChunkSubscription added s1
      in s2\<lparr>visibleChunks := newVisibleChunks\<rparr>)"

text \<open>The events that drive the system, and a run over a list of them.\<close>

datatype event =
    InitialArea VoxelCoord
  | PositionSample VoxelCoord
  | PoseTick VoxelCoord VoxelCoord Quaternion
  | RelayMessage int Uint8Array string
  | CleanupTick int

fun handle :: "string option \<Rightarrow> event \<Rightarrow> relay_state \<Rightarrow> error + relay_state" where
  "handle ca (InitialArea c) s = Inr (initialSubscription (currentArea c) s)"
| "handle ca (PositionSample c) s = Inr (areaChanged (currentArea c) s)"
| "handle ca (PoseTick latest p q) s = Inr (relaySubscription latest p q s)"
| "handle ca (RelayMessage now data address) s = rxMessage ca now data address s"
| "handle ca (CleanupTick now) s = rxCleanup now s"

fun run :: "string option \<Rightarrow> event list \<Rightarrow> relay_state \<Rightarrow> error + relay_state" where
  "run ca [] s = Inr s"
| "run ca (ev # evs) s = (case handle ca ev s of Inl e \<Rightarrow> Inl e | Inr s' \<Rightarrow> run ca evs s')"

section \<open>Properties of the number model and the codec\<close>

lemma bytes_int32_int32_bytes:
  "bytes_int32 (ucast w) (ucast (drop_bit 8 w)) (ucast (drop_bit 16 w)) (ucast (drop_bit 24 w)) = w"
  unfolding bytes_int32_def
proof (rule bit_word_eqI)
  fix n assume "n < LENGTH(32)"
  then have n: "n < 32" by simp
  consider "n < 8" | "8 \<le> n" "n < 16" | "16 \<le> n" "n < 24" | "24 \<le> n"
    by linarith
  then show "bit (ucast (ucast w :: 8 word) OR push_bit 8 (ucast (ucast (drop_bit 8 w) :: 8 word))
        OR push_bit 16 (ucast (ucast (drop_bit 16 w) :: 8 word))
        OR push_bit 24 (ucast (ucast (drop_bit 24 w) :: 8 word)) :: 32 word) n = bit w n"
    using n by cases (auto simp add: bit_simps)
qed

lemma Math_pow10_PRECISION: "Math_pow10 PRECISION = Num 100"
  by code_simp

lemma length_Int32ArrayToUint8Array: "length (Int32ArrayToUint8Array ns) = 4 * length ns"
  by (induction ns) (simp_all add: Int32ArrayToUint8Array_def int32_bytes_def)

lemma Uint8ArrayToInt32Array_encode:
  "Uint8ArrayToInt32Array (Int32ArrayToUint8Array ns) = Inr (map (\<lambda>n. int32_number (ToInt32 n)) ns)"
  by (induction ns) (simp_all add: Int32ArrayToUint8Array_def int32_bytes_def bytes_int32_int32_bytes)

lemma read_bytes_take_drop:
  "i + len \<le> length data \<Longrightarrow> map (\<lambda>j. read_byte data (i + j)) [0..<len] = take len (drop i data)"
  by (rule nth_equalityI) (simp_all add: read_byte_def)

lemma read_bytes_padded:
  "map (\<lambda>j. read_byte data (i + j)) [0..<len] = take len (drop i (data @ replicate (i + len) 0))"
  by (rule nth_equalityI) (auto simp add: read_byte_def nth_append)

lemma splitUint8Arrays_12_16:
  "splitUint8Arrays data [12, 16] =
     [take 12 (data @ replicate 28 0), take 16 (drop 12 (data @ replicate 28 0))]"
  apply (simp add: splitUint8Arrays_def)
  apply (intro conjI nth_equalityI)
  apply (auto simp add: read_byte_def nth_append)
  done

lemma pow2_powi: "pow2 e = 2 powi e"
proof (cases "0 \<le> e")
  case True
  then show ?thesis by (simp add: pow2_def power_int_def)
next
  case False
  then show ?thesis by (simp add: pow2_def power_int_def inverse_eq_divide power_one_over)
qed

lemma pow2_pos: "0 < pow2 e"
  by (simp add: pow2_powi)

lemma pow2_mono: "a \<le> b \<Longrightarrow> pow2 a \<le> pow2 b"
  by (simp add: pow2_powi power_int_increasing)

lemma pow2_less_imp: "pow2 a < pow2 b \<Longrightarrow> a < b"
  using pow2_mono [of b a] by (cases "a < b") auto

lemma binade_le:
  assumes "x \<noteq> 0"
  shows "pow2 (binade x) \<le> \<bar>x\<bar>"
proof -
  obtain n d where q: "quotient_of \<bar>x\<bar> = (n, d)"
    by (cases "quotient_of \<bar>x\<bar>")
  have d: "0 < d" using q by (rule quotient_of_denom_pos)
  have x: "\<bar>x\<bar> = of_int n / of_int d" using q by (rule quotient_of_div)
  have n: "0 < n"
  proof (rule ccontr)
    assume "\<not> 0 < n"
    then have "of_int n / (of_int d :: rat) \<le> 0"
      using d by (simp add: divide_le_0_iff)
    with x assms show False by simp
  qed
  let ?k = "bitlen n - bitlen d"
  have ln: "(2::int) ^ nat (bitlen n - 1) \<le> n" using bitlen_bounds [OF n] by simp
  have ud: "d < (2::int) ^ nat (bitlen d)" using bitlen_bounds [OF d] by simp
  have bn: "1 \<le> bitlen n" using n by (simp add: bitlen_alt_def)
  have bd: "1 \<le> bitlen d" using d by (simp add: bitlen_alt_def)
  have ln': "(2::rat) powi (bitlen n - 1) \<le> of_int n"
  proof -
    have "(of_int ((2::int) ^ nat (bitlen n - 1)) :: rat) \<le> of_int n"
      using ln by (simp only: of_int_le_iff)
    then show ?thesis using bn by (simp add: power_int_def)
  qed
  have ud': "(of_int d :: rat) \<le> 2 powi (bitlen d)"
  proof -
    have "(of_int d :: rat) \<le> of_int ((2::int) ^ nat (bitlen d))"
      using ud by (simp only: of_int_le_iff)
    then show ?thesis using bd by (simp add: power_int_def)
  qed
  have "pow2 (?k - 1) = 2 powi (bitlen n - 1) / 2 powi (bitlen d)"
    by (simp add: pow2_powi power_int_diff)
  also have "\<dots> \<le> of_int n / 2 powi (bitlen d)"
    using ln' by (simp add: divide_right_mono)
  also have "\<dots> \<le> of_int n / of_int d"
    using ud' d n by (simp add: divide_left_mono)
  finally have low: "pow2 (?k - 1) \<le> \<bar>x\<bar>" using x by simp
  show ?thesis
    unfolding binade_def q using low by (simp add: Let_def)
qed

lemma binade_less:
  assumes "x \<noteq> 0" "\<bar>x\<bar> < pow2 E"
  shows "binade x < E"
  using binade_le [OF assms(1)] assms(2) pow2_less_imp [of "binade x" E] by simp

lemma round_half_even_error: "\<bar>of_int (round_half_even y) - y\<bar> \<le> 1 / 2"
proof -
  define f where "f = \<lfloor>y\<rfloor>"
  have lo: "of_int f \<le> y" and hi: "y < of_int f + 1"
    unfolding f_def by linarith+
  consider "y - of_int f < 1 / 2" | "1 / 2 < y - of_int f" | "y - of_int f = 1 / 2"
    by linarith
  then show ?thesis
  proof cases
    case 1
    then have "round_half_even y = f" by (simp add: round_half_even_def Let_def f_def)
    with 1 lo show ?thesis by simp
  next
    case 2
    then have "round_half_even y = f + 1" by (simp add: round_half_even_def Let_def f_def)
    with 2 hi show ?thesis by simp
  next
    case 3
    then have "round_half_even y = f \<or> round_half_even y = f + 1"
      by (simp add: round_half_even_def Let_def f_def)
    with 3 show ?thesis by auto
  qed
qed

lemma fl_error:
  assumes "\<bar>x\<bar> < pow2 E" "- 1021 \<le> E" "E \<le> 1023"
  shows "\<exists>y. fl x = Num y \<and> \<bar>y - x\<bar> \<le> pow2 (E - 54)"
proof (cases "x = 0")
  case True
  then show ?thesis using pow2_pos [of "E - 54"] by (simp add: fl_def)
next
  case False
  define e where "e = max (binade x) (- 1022)"
  define u where "u = pow2 (e - 52)"
  define m where "m = round_half_even (x / u)"
  have e: "e \<le> E - 1" using binade_less [OF False assms(1)] assms(2) by (simp add: e_def)
  have u: "0 < u" by (simp add: u_def pow2_pos)
  have fl: "fl x = Num (of_int m * u)"
    using False e assms(3) by (simp add: fl_def Let_def e_def [symmetric] u_def [symmetric] m_def [symmetric])
  have "(of_int m - x / u) * u = of_int m * u - x"
    using u by (simp add: left_diff_distrib)
  then have "\<bar>of_int m * u - x\<bar> = \<bar>of_int m - x / u\<bar> * \<bar>u\<bar>"
    by (simp only: abs_mult [symmetric])
  then have "\<bar>of_int m * u - x\<bar> = \<bar>of_int m - x / u\<bar> * u"
    using u by simp
  also have "\<dots> \<le> (1 / 2) * u"
    using round_half_even_error [of "x / u"] u by (simp add: m_def del: times_divide_eq_left)
  also have "\<dots> = pow2 (e - 53)"
    by (simp add: u_def pow2_powi power_int_diff)
  also have "\<dots> \<le> pow2 (E - 54)"
    using e by (intro pow2_mono) simp
  finally show ?thesis using fl by simp
qed

lemma pow2_add: "pow2 (a + b) = pow2 a * pow2 b"
  by (simp add: pow2_powi power_int_add)

lemma binade_upper:
  assumes "x \<noteq> 0"
  shows "\<bar>x\<bar> < pow2 (binade x + 1)"
proof -
  obtain n d where q: "quotient_of \<bar>x\<bar> = (n, d)"
    by (cases "quotient_of \<bar>x\<bar>")
  have d: "0 < d" using q by (rule quotient_of_denom_pos)
  have x: "\<bar>x\<bar> = of_int n / of_int d" using q by (rule quotient_of_div)
  have n: "0 < n"
  proof (rule ccontr)
    assume "\<not> 0 < n"
    then have "of_int n / (of_int d :: rat) \<le> 0"
      using d by (simp add: divide_le_0_iff)
    with x assms show False by simp
  qed
  let ?k = "bitlen n - bitlen d"
  have un: "n < (2::int) ^ nat (bitlen n)" using bitlen_bounds [OF n] by simp
  have ld: "(2::int) ^ nat (bitlen d - 1) \<le> d" using bitlen_bounds [OF d] by simp
  have bn: "1 \<le> bitlen n" using n by (simp add: bitlen_alt_def)
  have bd: "1 \<le> bitlen d" using d by (simp add: bitlen_alt_def)
  have un': "(of_int n :: rat) < pow2 (bitlen n)"
  proof -
    have "(of_int n :: rat) < of_int ((2::int) ^ nat (bitlen n))"
      using un by (simp only: of_int_less_iff)
    then show ?thesis using bn by (simp add: pow2_def)
  qed
  have ld': "pow2 (bitlen d - 1) \<le> of_int d"
  proof -
    have "(of_int ((2::int) ^ nat (bitlen d - 1)) :: rat) \<le> of_int d"
      using ld by (simp only: of_int_le_iff)
    then show ?thesis using bd by (simp add: pow2_def)
  qed
  have dp: "(0::rat) < of_int d" using d by simp
  have "of_int n < pow2 (bitlen n)" by (rule un')
  also have "pow2 (bitlen n) = pow2 (?k + 1) * pow2 (bitlen d - 1)"
    unfolding pow2_add [symmetric] by simp
  also have "\<dots> \<le> pow2 (?k + 1) * of_int d"
    using ld' pow2_pos [of "?k + 1"] by (intro mult_left_mono) simp_all
  finally have "of_int n / of_int d < pow2 (?k + 1)"
    using dp by (simp add: pos_divide_less_eq)
  then have up: "\<bar>x\<bar> < pow2 (?k + 1)" using x by simp
  show ?thesis
  proof (cases "pow2 ?k \<le> \<bar>x\<bar>")
    case True
    then show ?thesis unfolding binade_def q using up by (simp add: Let_def)
  next
    case False
    then show ?thesis unfolding binade_def q by (simp add: Let_def)
  qed
qed

lemma round_half_even_of_int: "round_half_even (of_int m) = m"
  by (simp add: round_half_even_def)

lemma pow2_nat: "0 \<le> a \<Longrightarrow> pow2 a = of_int (2 ^ nat a)"
  by (simp add: pow2_def)

text \<open>Rounding leaves every binary64 value as it is.\<close>

lemma fl_representable:
  assumes "\<bar>m\<bar> < 2 ^ 53" and "- 1074 \<le> e" and "\<bar>of_int m * pow2 e\<bar> < pow2 1024"
  shows "fl (of_int m * pow2 e) = Num (of_int m * pow2 e)"
proof (cases "m = 0")
  case True
  then show ?thesis by (simp add: fl_def)
next
  case False
  define x where "x = of_int m * pow2 e"
  have x0: "x \<noteq> 0" using False pow2_pos [of e] by (simp add: x_def)
  define b where "b = max (binade x) (- 1022)"
  define u where "u = pow2 (b - 52)"
  define j where "j = m * 2 ^ nat (e - (b - 52))"
  have up: "0 < u" by (simp add: u_def pow2_pos)
  have b1024: "binade x < 1024"
    using binade_less [OF x0] assms(3) by (simp add: x_def)
  have p53: "pow2 53 = of_int (2 ^ 53)" by (simp add: pow2_def)
  have "pow2 (binade x) \<le> \<bar>x\<bar>" using binade_le [OF x0] .
  also have "\<bar>x\<bar> = of_int \<bar>m\<bar> * pow2 e"
    using pow2_pos [of e] by (simp add: x_def abs_mult)
  also have "\<dots> < of_int (2 ^ 53) * pow2 e"
  proof (rule mult_strict_right_mono)
    show "(of_int \<bar>m\<bar> :: rat) < of_int (2 ^ 53)" using assms(1) by (simp only: of_int_less_iff)
    show "0 < pow2 e" by (rule pow2_pos)
  qed
  also have "\<dots> = pow2 (53 + e)"
    by (simp only: pow2_add p53)
  finally have "binade x < 53 + e" by (rule pow2_less_imp)
  then have be: "0 \<le> e - (b - 52)" using assms(2) by (simp add: b_def)
  have "pow2 e = pow2 ((e - (b - 52)) + (b - 52))" by simp
  also have "\<dots> = pow2 (e - (b - 52)) * u"
    unfolding u_def by (rule pow2_add)
  also have "pow2 (e - (b - 52)) = of_int (2 ^ nat (e - (b - 52)))"
    by (rule pow2_nat [OF be])
  finally have pe: "pow2 e = of_int (2 ^ nat (e - (b - 52))) * u" .
  have xj: "x = of_int j * u"
    unfolding x_def pe j_def by (simp only: of_int_mult mult.assoc)
  have xu: "x / u = of_int j"
    unfolding xj using up by simp
  have r: "round_half_even (x / u) = j"
    unfolding xu by (rule round_half_even_of_int)
  have no: "\<not> (1024 \<le> b \<or> (b = 1023 \<and> \<bar>j\<bar> = 2 ^ 53))"
  proof
    assume "1024 \<le> b \<or> (b = 1023 \<and> \<bar>j\<bar> = 2 ^ 53)"
    then show False
    proof
      assume "1024 \<le> b" then show False using b1024 by (simp add: b_def)
    next
      assume a: "b = 1023 \<and> \<bar>j\<bar> = 2 ^ 53"
      then have "(of_int \<bar>j\<bar> :: rat) = of_int (2 ^ 53)" by (simp only:)
      then have "\<bar>of_int j :: rat\<bar> = pow2 53" by (simp only: p53 of_int_abs)
      moreover have "u = pow2 971" using a by (simp add: u_def)
      ultimately have "\<bar>x\<bar> = pow2 53 * pow2 971"
        using pow2_pos [of 971] by (simp only: xj abs_mult abs_of_pos)
      also have "\<dots> = pow2 1024" by (simp only: pow2_add [symmetric]) simp
      finally show False using assms(3) by (simp only: x_def [symmetric])
    qed
  qed
  have "fl x = Num (of_int j * u)"
    using x0 no by (simp only: fl_def Let_def b_def [symmetric] u_def [symmetric] r if_False)
  then show ?thesis by (simp only: xj [symmetric]) (simp only: x_def)
qed

lemma fromFixedPoint_Num: "fromFixedPoint (Num a) = fl (a / 100)"
  by (simp add: fromFixedPoint_def Math_pow10_PRECISION)

lemma toFixedPoint_Num: "toFixedPoint (Num a) = Math_floor (fl (a * 100))"
  by (simp add: toFixedPoint_def Math_pow10_PRECISION)

lemma reencode_int32:
  assumes "- (2 ^ 31) \<le> k" "k < 2 ^ 31"
  shows "toFixedPoint (fromFixedPoint (Num (of_int k))) = Num (of_int k)
       \<or> toFixedPoint (fromFixedPoint (Num (of_int k))) = Num (of_int (k - 1))"
proof -
  have k: "\<bar>of_int k :: rat\<bar> \<le> 2147483648"
    using assms by (simp add: abs_le_iff)
  have "\<bar>of_int k / 100 :: rat\<bar> < pow2 25"
    using k by (simp add: pow2_def)
  from fl_error [OF this] obtain a
    where a: "fl (of_int k / 100) = Num a" and ea: "\<bar>a - of_int k / 100\<bar> \<le> pow2 (- 29)"
    by auto
  have p29: "pow2 (- 29) = 1 / 536870912" and p32: "pow2 32 = 4294967296"
    and p22: "pow2 (- 22) = 1 / 4194304"
    by (simp_all add: pow2_def)
  have ea': "\<bar>a * 100 - of_int k\<bar> \<le> 100 / 536870912"
    using ea unfolding p29 by linarith
  have "\<bar>a * 100\<bar> < pow2 32"
    using ea' k unfolding p32 by linarith
  from fl_error [OF this] obtain b
    where b: "fl (a * 100) = Num b" and eb: "\<bar>b - a * 100\<bar> \<le> pow2 (- 22)"
    by auto
  have eb': "\<bar>b - a * 100\<bar> \<le> 1 / 4194304"
    using eb unfolding p22 .
  have "of_int k - 1 < b" "b < of_int k + 1"
    using ea' eb' by linarith+
  then have "\<lfloor>b\<rfloor> = k \<or> \<lfloor>b\<rfloor> = k - 1"
    by (cases "of_int k \<le> b") (simp_all add: floor_unique)
  then show ?thesis
    by (auto simp add: fromFixedPoint_Num toFixedPoint_Num a b)
qed

lemma toFixedPoint_integer: "toFixedPoint v = Num q \<Longrightarrow> q = of_int \<lfloor>q\<rfloor>"
  by (cases "js_mul v (Math_pow10 PRECISION)") (auto simp add: toFixedPoint_def)

lemma int32_roundtrip:
  assumes "- (2 ^ 31) \<le> k" "k < 2 ^ 31"
  shows "int32_number (ToInt32 (Num (of_int k))) = Num (of_int k)"
proof -
  have "sint (word_of_int k :: 32 word) = k"
    using signed_take_bit_int_eq_self [of 31 k] assms by (simp add: sint_sbintrunc')
  moreover have "(if (0::rat) \<le> of_int k then \<lfloor>of_int k :: rat\<rfloor> else \<lceil>of_int k :: rat\<rceil>) = k"
    by simp
  ultimately show ?thesis by (simp add: int32_number_def)
qed

lemma Int32ArrayToUint8Array_append:
  "Int32ArrayToUint8Array (xs @ ys) = Int32ArrayToUint8Array xs @ Int32ArrayToUint8Array ys"
  by (simp add: Int32ArrayToUint8Array_def)

lemma encodeMessage_eq:
  "encodeMessage p d = Int32ArrayToUint8Array (map toFixedPoint p) @ Int32ArrayToUint8Array (map toFixedPoint d)"
  by (simp add: encodeMessage_def concatUint8Arrays_def Int32ArrayToUint8Array_append)

lemma decodeMessage_padded:
  "decodeMessage data =
     (case Uint8ArrayToInt32Array (take 12 (data @ replicate 28 0)) of
        Inl e \<Rightarrow> Inl e
      | Inr p \<Rightarrow>
          (case Uint8ArrayToInt32Array (take 16 (drop 12 (data @ replicate 28 0))) of
             Inl e \<Rightarrow> Inl e
           | Inr d \<Rightarrow> Inr \<lparr>position = map fromFixedPoint p, direction = map fromFixedPoint d\<rparr>))"
  by (simp only: decodeMessage_def splitUint8Arrays_12_16 list.case)

lemma decode_encode:
  assumes "length p = 3" "length d = 4"
  shows "decodeMessage (encodeMessage p d) =
     Inr \<lparr>position = map (\<lambda>v. fromFixedPoint (int32_number (ToInt32 (toFixedPoint v)))) p,
          direction = map (\<lambda>v. fromFixedPoint (int32_number (ToInt32 (toFixedPoint v)))) d\<rparr>"
proof -
  let ?A = "Int32ArrayToUint8Array (map toFixedPoint p)"
  let ?B = "Int32ArrayToUint8Array (map toFixedPoint d)"
  have A: "length ?A = 12" and B: "length ?B = 16"
    using assms by (simp_all add: length_Int32ArrayToUint8Array)
  have "take 12 ((?A @ ?B) @ replicate 28 0) = ?A"
    using A by simp
  moreover have "take 16 (drop 12 ((?A @ ?B) @ replicate 28 0)) = ?B"
    using A B by simp
  ultimately show ?thesis
    by (simp add: decodeMessage_padded encodeMessage_eq Uint8ArrayToInt32Array_encode o_def)
qed

lemma spec_quantized_eq: "spec_quantized v = fromFixedPoint (toFixedPoint v)"
  by (simp add: spec_quantized_def fromFixedPoint_def toFixedPoint_def Math_pow10_PRECISION)

lemma in_int32_cases:
  assumes "in_int32 (toFixedPoint v)"
  obtains k where "toFixedPoint v = Num (of_int k)" "- (2 ^ 31) \<le> k" "k < 2 ^ 31"
proof -
  from assms obtain q where q: "toFixedPoint v = Num q" "- (2 ^ 31) \<le> q" "q < 2 ^ 31"
    by (auto simp add: in_int32_def split: number.splits)
  have qi: "q = of_int \<lfloor>q\<rfloor>" using q(1) by (rule toFixedPoint_integer)
  have "- (2 ^ 31) \<le> \<lfloor>q\<rfloor>" using q(2) by (simp add: le_floor_iff)
  moreover have "\<lfloor>q\<rfloor> < 2 ^ 31" using q(3) by (simp add: floor_less_iff)
  ultimately show thesis using that [of "\<lfloor>q\<rfloor>"] q(1) qi by simp
qed

lemma in_int32_roundtrip:
  assumes "in_int32 (toFixedPoint v)"
  shows "fromFixedPoint (int32_number (ToInt32 (toFixedPoint v))) = spec_quantized v"
proof -
  from assms obtain k where k: "toFixedPoint v = Num (of_int k)" "- (2 ^ 31) \<le> k" "k < 2 ^ 31"
    by (rule in_int32_cases)
  show ?thesis
    by (simp only: spec_quantized_eq k(1) int32_roundtrip [OF k(2,3)])
qed

lemma reencode_values:
  assumes "\<forall>v\<in>set vs. in_int32 (toFixedPoint v)"
  shows "\<exists>ks ks'. map toFixedPoint vs = map (\<lambda>k. Num (of_int k)) ks
           \<and> map toFixedPoint (map spec_quantized vs) = map (\<lambda>k. Num (of_int k)) ks'
           \<and> list_all2 (\<lambda>k k'. k' = k \<or> k' = k - 1) ks ks'"
  using assms
proof (induction vs)
  case Nil
  then show ?case by simp
next
  case (Cons v vs)
  then obtain ks ks' where IH: "map toFixedPoint vs = map (\<lambda>k. Num (of_int k)) ks"
      "map toFixedPoint (map spec_quantized vs) = map (\<lambda>k. Num (of_int k)) ks'"
      "list_all2 (\<lambda>k k'. k' = k \<or> k' = k - 1) ks ks'"
    by auto
  from Cons.prems have "in_int32 (toFixedPoint v)" by simp
  then obtain k where k: "toFixedPoint v = Num (of_int k)" "- (2 ^ 31) \<le> k" "k < 2 ^ 31"
    by (rule in_int32_cases)
  have "\<exists>k'. toFixedPoint (spec_quantized v) = Num (of_int k') \<and> (k' = k \<or> k' = k - 1)"
    using reencode_int32 [OF k(2,3)] unfolding spec_quantized_eq k(1) by blast
  then obtain k' where
    k': "toFixedPoint (spec_quantized v) = Num (of_int k')" "k' = k \<or> k' = k - 1"
    by blast
  show ?case
    apply (rule exI [of _ "k # ks"])
    apply (rule exI [of _ "k' # ks'"])
    using IH k(1) k' apply simp
    done
qed

lemma Uint8ArrayToInt32Array_total:
  "length bs = 4 * n \<Longrightarrow> \<exists>ns. Uint8ArrayToInt32Array bs = Inr ns \<and> length ns = n"
proof (induction n arbitrary: bs)
  case 0
  then show ?case by simp
next
  case (Suc n)
  then obtain b0 b1 b2 b3 rest where bs: "bs = b0 # b1 # b2 # b3 # rest"
    by (cases bs; simp; cases "tl bs"; simp; cases "tl (tl bs)"; simp; cases "tl (tl (tl bs))"; simp)
  with Suc.prems have "length rest = 4 * n" by simp
  from Suc.IH [OF this] obtain ns where "Uint8ArrayToInt32Array rest = Inr ns" "length ns = n"
    by blast
  then show ?case by (simp add: bs)
qed

lemma decodeMessage_28:
  assumes "length data = 28"
  shows "\<exists>p d. Uint8ArrayToInt32Array (take 12 data) = Inr p \<and> length p = 3
          \<and> Uint8ArrayToInt32Array (drop 12 data) = Inr d \<and> length d = 4
          \<and> decodeMessage data = Inr \<lparr>position = map fromFixedPoint p, direction = map fromFixedPoint d\<rparr>"
proof -
  have "length (take 12 data) = 4 * 3" using assms by simp
  from Uint8ArrayToInt32Array_total [OF this] obtain p
    where p: "Uint8ArrayToInt32Array (take 12 data) = Inr p" "length p = 3" by blast
  have "length (drop 12 data) = 4 * 4" using assms by simp
  from Uint8ArrayToInt32Array_total [OF this] obtain d
    where d: "Uint8ArrayToInt32Array (drop 12 data) = Inr d" "length d = 4" by blast
  have "take 12 (data @ replicate 28 0) = take 12 data"
    using assms by simp
  moreover have "take 16 (drop 12 (data @ replicate 28 0)) = drop 12 data"
    using assms by simp
  ultimately have "decodeMessage data = Inr \<lparr>position = map fromFixedPoint p, direction = map fromFixedPoint d\<rparr>"
    by (simp add: decodeMessage_padded p d)
  with p d show ?thesis by blast
qed

lemma decodeMessage_shape:
  "\<exists>x y z q0 q1 q2 q3. decodeMessage data = Inr \<lparr>position = [x, y, z], direction = [q0, q1, q2, q3]\<rparr>"
proof -
  define padded where "padded = data @ replicate 28 0"
  have "length (take 12 padded) = 4 * 3" by (simp add: padded_def)
  from Uint8ArrayToInt32Array_total [OF this] obtain p
    where p: "Uint8ArrayToInt32Array (take 12 padded) = Inr p" "length p = 3" by blast
  have "length (take 16 (drop 12 padded)) = 4 * 4" by (simp add: padded_def)
  from Uint8ArrayToInt32Array_total [OF this] obtain d
    where d: "Uint8ArrayToInt32Array (take 16 (drop 12 padded)) = Inr d" "length d = 4" by blast
  from p(2) obtain a b c where "p = [a, b, c]"
    by (cases p; simp; cases "tl p"; simp; cases "tl (tl p)"; simp)
  moreover from d(2) obtain e f g h where "d = [e, f, g, h]"
    by (cases d; simp; cases "tl d"; simp; cases "tl (tl d)"; simp; cases "tl (tl (tl d))"; simp)
  moreover have "decodeMessage data = Inr \<lparr>position = map fromFixedPoint p, direction = map fromFixedPoint d\<rparr>"
    unfolding decodeMessage_padded padded_def [symmetric] by (simp only: p(1) d(1) sum.case)
  ultimately show ?thesis by simp
qed

lemma int32_wraps:
  "int32_number (ToInt32 (Num (of_int k))) = Num (of_int (signed_take_bit 31 k))"
  by (simp add: int32_number_def sint_sbintrunc')

lemma in_int32_unchanged:
  assumes "in_int32 (toFixedPoint v)"
  shows "int32_number (ToInt32 (toFixedPoint v)) = toFixedPoint v"
proof -
  from assms obtain k where k: "toFixedPoint v = Num (of_int k)" "- (2 ^ 31) \<le> k" "k < 2 ^ 31"
    by (rule in_int32_cases)
  show ?thesis by (simp only: k(1) int32_roundtrip [OF k(2,3)])
qed

text \<open>The four bytes of a 32-bit value, least significant first.\<close>

lemma uint_byte: "uint (ucast (drop_bit n w) :: 8 word) = (uint w div 2 ^ n) mod 256"
  for w :: "32 word"
proof -
  have t: "take_bit 32 (uint w) = uint w"
    by (rule take_bit_int_eq_self) (use uint_lt2p [of w] in simp_all)
  have "uint (ucast (drop_bit n w) :: 8 word) = take_bit 8 (uint (drop_bit n w))"
    by (simp add: unsigned_ucast_eq)
  also have "uint (drop_bit n w) = drop_bit n (uint w)"
    by (simp add: unsigned_drop_bit_eq t)
  finally show ?thesis
    by (simp add: take_bit_eq_mod drop_bit_eq_div)
qed

lemma split_bytes:
  fixes x :: int
  assumes "0 \<le> x" "x < 4294967296"
  shows "x = x mod 256 + 256 * ((x div 256) mod 256)
      + 65536 * ((x div 65536) mod 256) + 16777216 * ((x div 16777216) mod 256)"
proof -
  define q1 where "q1 = x div 256"
  define q2 where "q2 = q1 div 256"
  define q3 where "q3 = q2 div 256"
  have a: "x = 256 * q1 + x mod 256" unfolding q1_def by simp
  have b: "q1 = 256 * q2 + q1 mod 256" unfolding q2_def by simp
  have c: "q2 = 256 * q3 + q2 mod 256" unfolding q3_def by simp
  have d1: "x div 65536 = q2"
    using zdiv_zmult2_eq [of 256 x 256] by (simp add: q1_def q2_def)
  have d2: "x div 16777216 = q3"
    using zdiv_zmult2_eq [of 256 "x div 65536" 256] zdiv_zmult2_eq [of 256 x 65536]
    by (simp add: d1 q3_def)
  have "q3 < 256" "0 \<le> q3" using assms unfolding d2 [symmetric] by simp_all
  then have g: "q3 mod 256 = q3" by simp
  have "x = x mod 256 + 256 * (q1 mod 256) + 65536 * (q2 mod 256) + 16777216 * (q3 mod 256)"
    unfolding g using a b c by linarith
  then show ?thesis unfolding d1 d2 q1_def [symmetric] .
qed

lemma int32_bytes_little_endian:
  "\<exists>b0 b1 b2 b3. int32_bytes w = [b0, b1, b2, b3]
     \<and> uint w = uint b0 + 256 * uint b1 + 65536 * uint b2 + 16777216 * uint b3"
proof -
  have r: "0 \<le> uint w" "uint w < 4294967296"
    using uint_lt2p [of w] by simp_all
  have b0: "uint (ucast w :: 8 word) = uint w mod 256"
    using uint_byte [of 0 w] by simp
  have b1: "uint (ucast (drop_bit 8 w) :: 8 word) = (uint w div 256) mod 256"
    using uint_byte [of 8 w] by simp
  have b2: "uint (ucast (drop_bit 16 w) :: 8 word) = (uint w div 65536) mod 256"
    using uint_byte [of 16 w] by simp
  have b3: "uint (ucast (drop_bit 24 w) :: 8 word) = (uint w div 16777216) mod 256"
    using uint_byte [of 24 w] by simp
  have "uint w = uint (ucast w :: 8 word) + 256 * uint (ucast (drop_bit 8 w) :: 8 word)
      + 65536 * uint (ucast (drop_bit 16 w) :: 8 word)
      + 16777216 * uint (ucast (drop_bit 24 w) :: 8 word)"
    unfolding b0 b1 b2 b3 by (rule split_bytes [OF r])
  then show ?thesis
    unfolding int32_bytes_def by blast
qed

text \<open>The integer on the wire, from \<^verbatim>\<open>Math.floor(value * 100)\<close>.\<close>

lemma word_of_int_signed_take_bit_31:
  "(word_of_int (signed_take_bit 31 k) :: 32 word) = word_of_int k"
proof -
  have "take_bit 32 (signed_take_bit 31 k) = take_bit 32 k"
    by (rule take_bit_signed_take_bit) simp
  then show ?thesis
    by (simp add: word_of_int_eq_iff)
qed

lemma toFixedPoint_floor: "toFixedPoint v = Math_floor (js_mul v (Num 100))"
  by (simp add: toFixedPoint_def Math_pow10_PRECISION)

lemma wire_word: "ToInt32 (toFixedPoint v) = word_of_int (spec_wire_int v)"
  by (cases "js_mul v (Num 100)")
     (simp_all add: toFixedPoint_floor spec_wire_int_def word_of_int_signed_take_bit_31)

lemma wire_number: "int32_number (ToInt32 (toFixedPoint v)) = Num (of_int (spec_wire_int v))"
  by (cases "js_mul v (Num 100)")
     (simp_all add: toFixedPoint_floor spec_wire_int_def int32_number_def sint_sbintrunc')

lemma spec_wire_int_finite:
  assumes "Math_floor (js_mul v (Num 100)) = Num (of_int k)"
  shows "spec_wire_int v = signed_take_bit 31 k"
  using assms by (simp add: spec_wire_int_def)

lemma spec_wire_int_in_range:
  assumes "Math_floor (js_mul v (Num 100)) = Num (of_int k)" "- (2 ^ 31) \<le> k" "k < 2 ^ 31"
  shows "spec_wire_int v = k"
  using assms(2,3) by (simp only: spec_wire_int_finite [OF assms(1)] signed_take_bit_int_eq_self)

lemma spec_wire_int_modulo:
  assumes "Math_floor (js_mul v (Num 100)) = Num (of_int k)"
  shows "spec_wire_int v mod 2 ^ 32 = k mod 2 ^ 32 \<and> - (2 ^ 31) \<le> spec_wire_int v
       \<and> spec_wire_int v < 2 ^ 31"
proof -
  have "take_bit 32 (signed_take_bit 31 k) = take_bit 32 k"
    by (rule take_bit_signed_take_bit) simp
  then have "signed_take_bit 31 k mod 2 ^ 32 = k mod 2 ^ 32"
    by (simp only: take_bit_eq_mod)
  moreover have "- (2 ^ 31) \<le> signed_take_bit 31 k" "signed_take_bit 31 k < 2 ^ 31"
    by (rule signed_take_bit_int_greater_eq_minus_exp, rule signed_take_bit_int_less_exp)
  ultimately show ?thesis
    by (simp only: spec_wire_int_finite [OF assms])
qed

lemma spec_wire_int_non_finite:
  "\<not> isFinite (Math_floor (js_mul v (Num 100))) \<Longrightarrow> spec_wire_int v = 0"
  by (cases "Math_floor (js_mul v (Num 100))") (simp_all add: spec_wire_int_def)

section \<open>Properties of the store and the handlers\<close>

lemma getComponentValue_removeComponent:
  "getComponentValue (removeComponent c e) e' = (if e' = e then None else getComponentValue c e')"
  by (simp add: getComponentValue_def removeComponent_def delete_conv)

lemma getComponentValue_setComponent:
  "getComponentValue (setComponent c e v) e' = (if e' = e then Some v else getComponentValue c e')"
  by (simp add: getComponentValue_def setComponent_def update_conv')

lemma player_state_removePlayerComponent:
  "player_state (removePlayerComponent p s) e =
     (if e = p then (None, None, None, None) else player_state s e)"
  by (simp add: player_state_def removePlayerComponent_def getComponentValue_removeComponent)

lemma removePlayerComponent_frame:
  "entities (removePlayerComponent p s) = entities s"
  "visibleChunks (removePlayerComponent p s) = visibleChunks s"
  "relay_calls (removePlayerComponent p s) = relay_calls s"
  by (simp_all add: removePlayerComponent_def)

lemma cleanup_loop_spec:
  assumes "distinct ps" and "\<forall>p\<in>set ps. getComponentValue (PlayerLastMessage s) p \<noteq> None"
  shows "\<exists>s'. cleanup_loop t ps s = Inr s'
           \<and> (\<forall>e. player_state s' e =
                 (if e \<in> set ps \<and> (\<exists>v. getComponentValue (PlayerLastMessage s) e = Some v \<and> v < t)
                  then (None, None, None, None) else player_state s e))
           \<and> entities s' = entities s \<and> visibleChunks s' = visibleChunks s
           \<and> relay_calls s' = relay_calls s"
  using assms
proof (induction ps arbitrary: s)
  case Nil
  then show ?case by simp
next
  case (Cons p ps)
  from Cons.prems(2) obtain v where v: "getComponentValue (PlayerLastMessage s) p = Some v"
    by auto
  define s1 where "s1 = (if v < t then removePlayerComponent p s else s)"
  have step: "cleanup_loop t (p # ps) s = cleanup_loop t ps s1"
    using v by (simp add: getComponentValueStrict_def getComponentValue_def s1_def)
  have ps1: "\<And>e. player_state s1 e =
      (if e = p \<and> v < t then (None, None, None, None) else player_state s e)"
    by (simp add: s1_def player_state_removePlayerComponent)
  have lm1: "\<And>e. e \<noteq> p \<Longrightarrow>
      getComponentValue (PlayerLastMessage s1) e = getComponentValue (PlayerLastMessage s) e"
    by (simp add: s1_def removePlayerComponent_def getComponentValue_removeComponent)
  have frame1: "entities s1 = entities s" "visibleChunks s1 = visibleChunks s"
      "relay_calls s1 = relay_calls s"
    by (simp_all add: s1_def removePlayerComponent_frame)
  have d: "distinct ps" and pn: "p \<notin> set ps" using Cons.prems(1) by simp_all
  have "\<forall>q\<in>set ps. getComponentValue (PlayerLastMessage s1) q \<noteq> None"
  proof
    fix q assume q: "q \<in> set ps"
    then have "q \<noteq> p" using pn by auto
    then show "getComponentValue (PlayerLastMessage s1) q \<noteq> None"
      using lm1 [of q] Cons.prems(2) q by simp
  qed
  from Cons.IH [OF d this] obtain s' where s':
    "cleanup_loop t ps s1 = Inr s'"
    "\<And>e. player_state s' e =
       (if e \<in> set ps \<and> (\<exists>w. getComponentValue (PlayerLastMessage s1) e = Some w \<and> w < t)
        then (None, None, None, None) else player_state s1 e)"
    "entities s' = entities s1" "visibleChunks s' = visibleChunks s1"
    "relay_calls s' = relay_calls s1"
    by blast
  have "\<And>e. player_state s' e =
      (if e \<in> set (p # ps) \<and> (\<exists>w. getComponentValue (PlayerLastMessage s) e = Some w \<and> w < t)
       then (None, None, None, None) else player_state s e)"
  proof -
    fix e
    show "player_state s' e =
      (if e \<in> set (p # ps) \<and> (\<exists>w. getComponentValue (PlayerLastMessage s) e = Some w \<and> w < t)
       then (None, None, None, None) else player_state s e)"
    proof (cases "e = p")
      case True
      then show ?thesis using s'(2) [of e] ps1 [of e] pn v by simp
    next
      case False
      then show ?thesis using s'(2) [of e] ps1 [of e] lm1 [of e] by auto
    qed
  qed
  then show ?case using step s'(1,3,4,5) frame1 by simp
qed

lemma component_entities_set:
  "e \<in> set (component_entities c) \<longleftrightarrow> getComponentValue c e \<noteq> None"
  by (simp add: component_entities_def getComponentValue_def map_of_eq_None_iff)

lemma distinct_component_entities: "distinct (component_entities c)"
  by (simp add: component_entities_def)

lemma rxMessage_unfold:
  assumes "decodeMessage data = Inr \<lparr>position = [x, y, z], direction = [q0, q1, q2, q3]\<rparr>"
  shows "rxMessage ca now data address s =
     (if ca = Some address then Inr s
      else if CoordMap_get (visibleChunks s) (pixelToChunkCoord (x, z) RELAY_CHUNK_SIZE) \<noteq> Some True
        then Inr s
        else Inr (s\<lparr>entities := snd (registerEntity (entities s) address),
                PlayerPosition := setComponent (PlayerPosition s)
                   (fst (registerEntity (entities s) address)) (VoxelCoord x y z),
                PlayerDirection := setComponent (PlayerDirection s)
                   (fst (registerEntity (entities s) address)) (Quaternion q0 q1 q2 q3),
                PlayerLastMessage := setComponent (PlayerLastMessage s)
                   (fst (registerEntity (entities s) address)) now\<rparr>))"
  by (auto simp add: rxMessage_def assms Let_def split: prod.splits)

lemma decodeMessage_first_28:
  "decodeMessage (take 28 (data @ replicate 28 0)) = decodeMessage data"
proof -
  define padded where "padded = data @ replicate 28 0"
  have l: "length (take 28 padded) = 28" by (simp add: padded_def)
  have a: "take 12 (take 28 padded @ replicate 28 0) = take 12 padded"
    using l by simp
  have b: "take 16 (drop 12 (take 28 padded @ replicate 28 0)) = take 16 (drop 12 padded)"
    using l by (simp add: drop_take)
  have "decodeMessage (take 28 padded) =
     (case Uint8ArrayToInt32Array (take 12 (take 28 padded @ replicate 28 0)) of
        Inl e \<Rightarrow> Inl e
      | Inr p \<Rightarrow>
          (case Uint8ArrayToInt32Array (take 16 (drop 12 (take 28 padded @ replicate 28 0))) of
             Inl e \<Rightarrow> Inl e
           | Inr d \<Rightarrow> Inr \<lparr>position = map fromFixedPoint p, direction = map fromFixedPoint d\<rparr>))"
    by (rule decodeMessage_padded)
  also have "\<dots> =
     (case Uint8ArrayToInt32Array (take 12 padded) of
        Inl e \<Rightarrow> Inl e
      | Inr p \<Rightarrow>
          (case Uint8ArrayToInt32Array (take 16 (drop 12 padded)) of
             Inl e \<Rightarrow> Inl e
           | Inr d \<Rightarrow> Inr \<lparr>position = map fromFixedPoint p, direction = map fromFixedPoint d\<rparr>))"
    by (simp only: a b)
  also have "\<dots> = decodeMessage data"
    unfolding padded_def by (rule decodeMessage_padded [symmetric])
  finally show ?thesis unfolding padded_def .
qed

lemma toFixedPoint_non_finite: "\<not> isFinite v \<Longrightarrow> ToInt32 (toFixedPoint v) = 0"
  by (cases v) (simp_all add: toFixedPoint_def Math_pow10_PRECISION)

lemma int32_number_0: "int32_number 0 = Num 0"
  by (simp add: int32_number_def)

lemma rxMessage_effect:
  assumes "rxMessage ca now data address s = Inr s'"
  shows "PlayerRelayerChunkPosition s' = PlayerRelayerChunkPosition s
       \<and> visibleChunks s' = visibleChunks s \<and> relay_calls s' = relay_calls s
       \<and> (s' = s \<or> (\<exists>entity p q.
             PlayerPosition s' = setComponent (PlayerPosition s) entity p
           \<and> PlayerDirection s' = setComponent (PlayerDirection s) entity q
           \<and> PlayerLastMessage s' = setComponent (PlayerLastMessage s) entity now))"
proof -
  obtain x y z q0 q1 q2 q3 where
    "decodeMessage data = Inr \<lparr>position = [x, y, z], direction = [q0, q1, q2, q3]\<rparr>"
    using decodeMessage_shape by blast
  from rxMessage_unfold [OF this, of ca now address s] assms show ?thesis
    by (auto split: if_splits)
qed

lemma Has_setComponent: "Has c e \<Longrightarrow> Has (setComponent c e' v) e"
  by (simp add: Has_def setComponent_def update_conv')

lemma removeComponent_Nil: "removeComponent [] e = []"
  by (simp add: removeComponent_def)

lemma cleanup_loop_chunk_empty:
  "PlayerRelayerChunkPosition s = [] \<Longrightarrow> cleanup_loop t ps s = Inr s' \<Longrightarrow>
   PlayerRelayerChunkPosition s' = []"
proof (induction ps arbitrary: s)
  case Nil
  then show ?case by simp
next
  case (Cons p ps)
  from Cons.prems(2) obtain v where v: "getComponentValueStrict (PlayerLastMessage s) p = Inr v"
    by (cases "getComponentValueStrict (PlayerLastMessage s) p") simp_all
  define s1 where "s1 = (if v < t then removePlayerComponent p s else s)"
  have "PlayerRelayerChunkPosition s1 = []"
    using Cons.prems(1) by (simp add: s1_def removePlayerComponent_def removeComponent_Nil)
  moreover have "cleanup_loop t ps s1 = Inr s'"
    using Cons.prems(2) v by (simp add: s1_def)
  ultimately show ?case by (rule Cons.IH)
qed

lemma removedPlayers_empty:
  "PlayerRelayerChunkPosition s = [] \<Longrightarrow> removedPlayers s chunk = []"
  by (simp add: removedPlayers_def HasValue_def)

lemma removedChunksSubcription_empty:
  assumes "PlayerRelayerChunkPosition s = []"
  shows "removedChunksSubcription chunk s =
           s\<lparr>relay_calls := relay_calls s @ [Unsubscribe (createChunkTopicMessage chunk)]\<rparr>"
  using assms
  by (simp add: removedChunksSubcription_def removedPlayers_def HasValue_def relay_unsubscribe_def)

lemma fold_removedChunksSubcription_empty:
  "PlayerRelayerChunkPosition s = [] \<Longrightarrow>
   fold removedChunksSubcription cs s =
     s\<lparr>relay_calls := relay_calls s @ map (\<lambda>c. Unsubscribe (createChunkTopicMessage c)) cs\<rparr>"
proof (induction cs arbitrary: s)
  case Nil
  then show ?case by simp
next
  case (Cons c cs)
  let ?s1 = "s\<lparr>relay_calls := relay_calls s @ [Unsubscribe (createChunkTopicMessage c)]\<rparr>"
  have "PlayerRelayerChunkPosition ?s1 = []" using Cons.prems by simp
  from Cons.IH [OF this] show ?case
    by (simp add: removedChunksSubcription_empty [OF Cons.prems])
qed

lemma fold_addedChunkSubscription:
  "fold addedChunkSubscription cs s =
     s\<lparr>relay_calls := relay_calls s @ map (\<lambda>c. Subscribe (createChunkTopicMessage c)) cs\<rparr>"
  by (induction cs arbitrary: s) (simp_all add: addedChunkSubscription_def relay_subscribe_def)

lemma initialSubscription_calls:
  "\<exists>calls. initialSubscription area s = s\<lparr>relay_calls := calls\<rparr>"
proof -
  have "\<And>cs s. fold (\<lambda>c. relay_subscribe (createChunkTopicMessage c)) cs s =
      s\<lparr>relay_calls := relay_calls s @ map (\<lambda>c. Subscribe (createChunkTopicMessage c)) cs\<rparr>"
  proof -
    fix cs s
    show "fold (\<lambda>c. relay_subscribe (createChunkTopicMessage c)) cs s =
      s\<lparr>relay_calls := relay_calls s @ map (\<lambda>c. Subscribe (createChunkTopicMessage c)) cs\<rparr>"
      by (induction cs arbitrary: s) (simp_all add: relay_subscribe_def)
  qed
  then show ?thesis unfolding initialSubscription_def by blast
qed

lemma areaChanged_empty:
  assumes "PlayerRelayerChunkPosition s = []"
  shows "\<exists>calls vis. areaChanged area s = s\<lparr>relay_calls := calls, visibleChunks := vis\<rparr>"
  unfolding areaChanged_def Let_def fold_removedChunksSubcription_empty [OF assms]
    fold_addedChunkSubscription
  by (intro exI) simp

lemma handle_chunk_empty:
  assumes "PlayerRelayerChunkPosition s = []" and "handle ca ev s = Inr s'"
  shows "PlayerRelayerChunkPosition s' = []"
proof (cases ev)
  case (InitialArea c)
  from initialSubscription_calls [of "currentArea c" s] obtain calls
    where "initialSubscription (currentArea c) s = s\<lparr>relay_calls := calls\<rparr>"
    by blast
  with assms InitialArea show ?thesis by auto
next
  case (PositionSample c)
  from areaChanged_empty [OF assms(1), of "currentArea c"] obtain calls vis
    where "areaChanged (currentArea c) s = s\<lparr>relay_calls := calls, visibleChunks := vis\<rparr>"
    by blast
  with assms PositionSample show ?thesis by auto
next
  case (PoseTick latest p q)
  with assms show ?thesis
    by (auto simp add: relaySubscription_def relayPositionAndDirection_def relay_push_def)
next
  case (RelayMessage now data address)
  with assms rxMessage_effect [of ca now data address s s'] show ?thesis by simp
next
  case (CleanupTick now)
  with assms show ?thesis
    by (auto simp add: rxCleanup_def Let_def dest: cleanup_loop_chunk_empty)
qed

lemma run_chunk_empty:
  "PlayerRelayerChunkPosition s0 = [] \<Longrightarrow> run ca evs s0 = Inr s \<Longrightarrow>
   PlayerRelayerChunkPosition s = []"
proof (induction evs arbitrary: s0)
  case Nil
  then show ?case by simp
next
  case (Cons ev evs)
  from Cons.prems(2) obtain s1 where s1: "handle ca ev s0 = Inr s1" "run ca evs s1 = Inr s"
    by (cases "handle ca ev s0") simp_all
  from handle_chunk_empty [OF Cons.prems(1) s1(1)] s1(2) show ?case
    by (rule Cons.IH)
qed

lemma handle_keeps_players:
  assumes "PlayerRelayerChunkPosition s = []" and "handle ca ev s = Inr s'"
    and "\<forall>now. ev \<noteq> CleanupTick now"
  shows "(Has (PlayerPosition s) e \<longrightarrow> Has (PlayerPosition s') e)
       \<and> (Has (PlayerDirection s) e \<longrightarrow> Has (PlayerDirection s') e)
       \<and> (Has (PlayerLastMessage s) e \<longrightarrow> Has (PlayerLastMessage s') e)"
proof (cases ev)
  case (InitialArea c)
  from initialSubscription_calls [of "currentArea c" s] obtain calls
    where "initialSubscription (currentArea c) s = s\<lparr>relay_calls := calls\<rparr>"
    by blast
  with assms InitialArea show ?thesis by auto
next
  case (PositionSample c)
  from areaChanged_empty [OF assms(1), of "currentArea c"] obtain calls vis
    where "areaChanged (currentArea c) s = s\<lparr>relay_calls := calls, visibleChunks := vis\<rparr>"
    by blast
  with assms PositionSample show ?thesis by auto
next
  case (PoseTick latest p q)
  with assms show ?thesis
    by (auto simp add: relaySubscription_def relayPositionAndDirection_def relay_push_def)
next
  case (RelayMessage now data address)
  with assms rxMessage_effect [of ca now data address s s'] show ?thesis
    by (auto simp add: Has_setComponent)
next
  case (CleanupTick now)
  with assms(3) show ?thesis by simp
qed

lemma rxMessage_total: "\<exists>s'. rxMessage ca now data address s = Inr s'"
proof -
  obtain x y z q0 q1 q2 q3 where
    "decodeMessage data = Inr \<lparr>position = [x, y, z], direction = [q0, q1, q2, q3]\<rparr>"
    using decodeMessage_shape by blast
  then show ?thesis by (simp add: rxMessage_unfold)
qed

lemma fold_removePlayerComponent:
  "player_state (fold removePlayerComponent rs s) e =
     (if e \<in> set rs then (None, None, None, None) else player_state s e)"
  by (induction rs arbitrary: s) (simp_all add: player_state_removePlayerComponent)

lemma removedPlayers_set:
  "e \<in> set (removedPlayers s chunk) \<longleftrightarrow>
     Has (PlayerDirection s) e \<and> Has (PlayerPosition s) e
     \<and> HasValue (PlayerRelayerChunkPosition s) chunk e"
  by (auto simp add: removedPlayers_def component_entities_set Has_def getComponentValue_def)

lemma removedChunksSubcription_players:
  "player_state (removedChunksSubcription chunk s) e =
     (if Has (PlayerDirection s) e \<and> Has (PlayerPosition s) e
         \<and> HasValue (PlayerRelayerChunkPosition s) chunk e
      then (None, None, None, None) else player_state s e)"
proof -
  let ?s1 = "relay_unsubscribe (createChunkTopicMessage chunk) s"
  have "player_state ?s1 e = player_state s e"
    by (simp add: player_state_def relay_unsubscribe_def)
  moreover have "removedChunksSubcription chunk s = fold removePlayerComponent (removedPlayers s chunk) ?s1"
    by (simp add: removedChunksSubcription_def Let_def)
  ultimately show ?thesis
    by (simp only: fold_removePlayerComponent removedPlayers_set)
qed








section \<open>Claims about the codec\<close>

text \<open>
  Claim C1 (quantization round trip), as amended. For a position of three and a direction of
  four scalars whose quantised values \<^verbatim>\<open>Math.floor(v * 100)\<close> are finite and lie in the
  signed 32-bit range, decoding the encoded message yields \<^verbatim>\<open>Math.floor(v * 100) / 100\<close>
  (evaluated in double arithmetic) for every scalar. Re-encoding the decoded scalars is not
  always a fixed point: each re-encoded integer is the original integer \<open>k\<close> or \<open>k - 1\<close>.
\<close>

theorem quantization_roundtrip:
  assumes "length pos = 3" and "length dir = 4"
    and "\<forall>v\<in>set (pos @ dir). in_int32 (toFixedPoint v)"
  shows "decodeMessage (encodeMessage pos dir) =
           Inr \<lparr>position = map spec_quantized pos, direction = map spec_quantized dir\<rparr>
       \<and> (\<exists>ks ks'.
             encodeMessage pos dir =
               Int32ArrayToUint8Array (map (\<lambda>k. Num (of_int k)) ks)
           \<and> encodeMessage (map spec_quantized pos) (map spec_quantized dir) =
               Int32ArrayToUint8Array (map (\<lambda>k. Num (of_int k)) ks')
           \<and> list_all2 (\<lambda>k k'. k' = k \<or> k' = k - 1) ks ks')"
proof
  have "map (\<lambda>v. fromFixedPoint (int32_number (ToInt32 (toFixedPoint v)))) pos = map spec_quantized pos"
    using assms(3) by (intro map_cong refl in_int32_roundtrip) simp
  moreover have "map (\<lambda>v. fromFixedPoint (int32_number (ToInt32 (toFixedPoint v)))) dir = map spec_quantized dir"
    using assms(3) by (intro map_cong refl in_int32_roundtrip) simp
  ultimately show "decodeMessage (encodeMessage pos dir) =
           Inr \<lparr>position = map spec_quantized pos, direction = map spec_quantized dir\<rparr>"
    using decode_encode [OF assms(1,2)] by simp
next
  from reencode_values [OF assms(3)] obtain ks ks' where
    "map toFixedPoint (pos @ dir) = map (\<lambda>k. Num (of_int k)) ks"
    "map toFixedPoint (map spec_quantized (pos @ dir)) = map (\<lambda>k. Num (of_int k)) ks'"
    "list_all2 (\<lambda>k k'. k' = k \<or> k' = k - 1) ks ks'"
    by blast
  then show "\<exists>ks ks'.
             encodeMessage pos dir =
               Int32ArrayToUint8Array (map (\<lambda>k. Num (of_int k)) ks)
           \<and> encodeMessage (map spec_quantized pos) (map spec_quantized dir) =
               Int32ArrayToUint8Array (map (\<lambda>k. Num (of_int k)) ks')
           \<and> list_all2 (\<lambda>k k'. k' = k \<or> k' = k - 1) ks ks'"
    unfolding encodeMessage_def concatUint8Arrays_def Let_def
    by (intro exI [of _ ks] exI [of _ ks']) (simp del: map_append add: map_append [symmetric])
qed

text \<open>
  The hypotheses of C1 hold for the position \<open>(1.5, -2, 0)\<close> and the direction
  \<open>(0, 0, 0, 1)\<close>.
\<close>

theorem quantization_roundtrip_witness:
  "length [Num (3 / 2), Num (- 2), Num 0] = 3 \<and> length [Num 0, Num 0, Num 0, Num 1] = 4
   \<and> in_int32 (toFixedPoint (Num (3 / 2))) \<and> in_int32 (toFixedPoint (Num (- 2)))
   \<and> in_int32 (toFixedPoint (Num 0)) \<and> in_int32 (toFixedPoint (Num 1))
   \<and> decodeMessage (encodeMessage [Num (3 / 2), Num (- 2), Num 0] [Num 0, Num 0, Num 0, Num 1]) =
       Inr \<lparr>position = map spec_quantized [Num (3 / 2), Num (- 2), Num 0],
            direction = map spec_quantized [Num 0, Num 0, Num 0, Num 1]\<rparr>
   \<and> (\<exists>ks ks'.
         encodeMessage [Num (3 / 2), Num (- 2), Num 0] [Num 0, Num 0, Num 0, Num 1] =
           Int32ArrayToUint8Array (map (\<lambda>k. Num (of_int k)) ks)
       \<and> encodeMessage (map spec_quantized [Num (3 / 2), Num (- 2), Num 0])
             (map spec_quantized [Num 0, Num 0, Num 0, Num 1]) =
           Int32ArrayToUint8Array (map (\<lambda>k. Num (of_int k)) ks')
       \<and> list_all2 (\<lambda>k k'. k' = k \<or> k' = k - 1) ks ks')"
proof -
  let ?pos = "[Num (3 / 2), Num (- 2), Num 0]"
  let ?dir = "[Num 0, Num 0, Num 0, Num 1]"
  have l1: "length ?pos = 3" and l2: "length ?dir = 4" by simp_all
  have i1: "in_int32 (toFixedPoint (Num (3 / 2)))" and i2: "in_int32 (toFixedPoint (Num (- 2)))"
    and i3: "in_int32 (toFixedPoint (Num 0))" and i4: "in_int32 (toFixedPoint (Num 1))"
    by code_simp+
  have i: "\<forall>v\<in>set (?pos @ ?dir). in_int32 (toFixedPoint v)"
    using i1 i2 i3 i4 by simp
  note th = quantization_roundtrip [OF l1 l2 i]
  show ?thesis
    by (intro conjI l1 l2 i1 i2 i3 i4 th [THEN conjunct1] th [THEN conjunct2])
qed

text \<open>
  The claim as stated fails twice. The finite scalar 30000000 has the quantised value
  3000000000, which an \<^verbatim>\<open>Int32Array\<close> stores as -1294967296, so it decodes to about
  -12949672.96 and not to 30000000. The scalar 0.5703125 is encoded as 57 and decoded to
  the double nearest to 0.57, whose product with 100 is just below 57: it is re-encoded
  as 56.
\<close>

theorem quantization_counterexample:
  "decodeMessage (encodeMessage [Num 30000000, Num 0, Num 0] [Num 0, Num 0, Num 0, Num 1]) =
     Inr \<lparr>position = [Num (- (1738075683034235 / 134217728)), Num 0, Num 0],
          direction = [Num 0, Num 0, Num 0, Num 1]\<rparr>
   \<and> spec_quantized (Num 30000000) = Num 30000000
   \<and> decodeMessage (encodeMessage [Num 30000000, Num 0, Num 0] [Num 0, Num 0, Num 0, Num 1]) \<noteq>
     Inr \<lparr>position = map spec_quantized [Num 30000000, Num 0, Num 0],
          direction = map spec_quantized [Num 0, Num 0, Num 0, Num 1]\<rparr>
   \<and> decodeMessage (encodeMessage [Num (73 / 128), Num 0, Num 0] [Num 0, Num 0, Num 0, Num 1]) =
     Inr \<lparr>position = [Num (5134103575202365 / 9007199254740992), Num 0, Num 0],
          direction = [Num 0, Num 0, Num 0, Num 1]\<rparr>
   \<and> encodeMessage [Num (5134103575202365 / 9007199254740992), Num 0, Num 0] [Num 0, Num 0, Num 0, Num 1]
       \<noteq> encodeMessage [Num (73 / 128), Num 0, Num 0] [Num 0, Num 0, Num 0, Num 1]"
  by code_simp

text \<open>
  Claim C2 (message layout), as amended. For a position of three and a direction of four
  scalars, \<open>encodeMessage\<close> produces 28 bytes, the concatenation in order of the
  little-endian 4-byte encodings of seven signed integers (byte \<open>i\<close> of an encoding has the
  weight \<open>256\<^sup>i\<close>). The integer of a scalar is \<^verbatim>\<open>Math.floor(value * 100)\<close> when that value
  lies in the signed 32-bit range, the integer of that range congruent to it modulo \<open>2\<^sup>3\<^sup>2\<close>
  when it is finite and outside the range, and 0 when it is NaN or infinite.
  \<open>decodeMessage\<close> reads the position from the first 12 bytes of a 28-byte message and the
  direction from the next 16.
\<close>

theorem encodeMessage_layout:
  assumes "length pos = 3" and "length dir = 4"
  shows "length (encodeMessage pos dir) = 28
       \<and> encodeMessage pos dir =
           concat (map (\<lambda>v. int32_bytes (word_of_int (spec_wire_int v))) (pos @ dir))
       \<and> (\<forall>w. \<exists>b0 b1 b2 b3. int32_bytes w = [b0, b1, b2, b3]
             \<and> uint w = uint b0 + 256 * uint b1 + 65536 * uint b2 + 16777216 * uint b3)
       \<and> Uint8ArrayToInt32Array (encodeMessage pos dir) =
           Inr (map (\<lambda>v. Num (of_int (spec_wire_int v))) (pos @ dir))
       \<and> (\<forall>v\<in>set (pos @ dir). \<forall>k.
             Math_floor (js_mul v (Num 100)) = Num (of_int k) \<and> - (2 ^ 31) \<le> k \<and> k < 2 ^ 31 \<longrightarrow>
             spec_wire_int v = k)
       \<and> (\<forall>v\<in>set (pos @ dir). \<forall>k.
             Math_floor (js_mul v (Num 100)) = Num (of_int k) \<longrightarrow>
             spec_wire_int v mod 2 ^ 32 = k mod 2 ^ 32
             \<and> - (2 ^ 31) \<le> spec_wire_int v \<and> spec_wire_int v < 2 ^ 31)
       \<and> (\<forall>v\<in>set (pos @ dir).
             \<not> isFinite (Math_floor (js_mul v (Num 100))) \<longrightarrow> spec_wire_int v = 0)
       \<and> (\<forall>data. length data = 28 \<longrightarrow>
            (\<exists>p d. Uint8ArrayToInt32Array (take 12 data) = Inr p \<and> length p = 3
                 \<and> Uint8ArrayToInt32Array (drop 12 data) = Inr d \<and> length d = 4
                 \<and> decodeMessage data =
                     Inr \<lparr>position = map fromFixedPoint p, direction = map fromFixedPoint d\<rparr>))"
proof (intro conjI)
  show "length (encodeMessage pos dir) = 28"
    using assms by (simp add: encodeMessage_eq length_Int32ArrayToUint8Array)
  show "encodeMessage pos dir =
           concat (map (\<lambda>v. int32_bytes (word_of_int (spec_wire_int v))) (pos @ dir))"
    by (simp add: encodeMessage_eq Int32ArrayToUint8Array_def o_def wire_word)
  show "\<forall>w. \<exists>b0 b1 b2 b3. int32_bytes w = [b0, b1, b2, b3]
             \<and> uint w = uint b0 + 256 * uint b1 + 65536 * uint b2 + 16777216 * uint b3"
    using int32_bytes_little_endian by blast
  show "Uint8ArrayToInt32Array (encodeMessage pos dir) =
           Inr (map (\<lambda>v. Num (of_int (spec_wire_int v))) (pos @ dir))"
    by (simp add: encodeMessage_def concatUint8Arrays_def Uint8ArrayToInt32Array_encode o_def
        wire_number del: map_append)
  show "\<forall>v\<in>set (pos @ dir). \<forall>k.
             Math_floor (js_mul v (Num 100)) = Num (of_int k) \<and> - (2 ^ 31) \<le> k \<and> k < 2 ^ 31 \<longrightarrow>
             spec_wire_int v = k"
    using spec_wire_int_in_range by blast
  show "\<forall>v\<in>set (pos @ dir). \<forall>k.
             Math_floor (js_mul v (Num 100)) = Num (of_int k) \<longrightarrow>
             spec_wire_int v mod 2 ^ 32 = k mod 2 ^ 32
             \<and> - (2 ^ 31) \<le> spec_wire_int v \<and> spec_wire_int v < 2 ^ 31"
    using spec_wire_int_modulo by blast
  show "\<forall>v\<in>set (pos @ dir).
             \<not> isFinite (Math_floor (js_mul v (Num 100))) \<longrightarrow> spec_wire_int v = 0"
    using spec_wire_int_non_finite by blast
  show "\<forall>data. length data = 28 \<longrightarrow>
            (\<exists>p d. Uint8ArrayToInt32Array (take 12 data) = Inr p \<and> length p = 3
                 \<and> Uint8ArrayToInt32Array (drop 12 data) = Inr d \<and> length d = 4
                 \<and> decodeMessage data =
                     Inr \<lparr>position = map fromFixedPoint p, direction = map fromFixedPoint d\<rparr>)"
    using decodeMessage_28 by blast
qed

text \<open>
  The hypotheses of C2 hold for the position \<open>(1/1024, -1/1024, 25000000)\<close> and the
  direction \<open>(0, 0, NaN, 1)\<close>: the floors 0 and -1 are sent as they are, 2500000000 is sent
  as -1794967296 and NaN as 0; and for a message of 28 bytes.
\<close>

theorem encodeMessage_layout_witness:
  "length [Num (1 / 1024), Num (- (1 / 1024)), Num 25000000] = 3
   \<and> length [Num 0, Num 0, NaN, Num 1] = 4
   \<and> length (encodeMessage [Num (1 / 1024), Num (- (1 / 1024)), Num 25000000]
        [Num 0, Num 0, NaN, Num 1]) = 28
   \<and> Uint8ArrayToInt32Array (encodeMessage [Num (1 / 1024), Num (- (1 / 1024)), Num 25000000]
        [Num 0, Num 0, NaN, Num 1]) =
       Inr [Num 0, Num (- 1), Num (- 1794967296), Num 0, Num 0, Num 0, Num 100]
   \<and> Math_floor (js_mul (Num (- (1 / 1024))) (Num 100)) = Num (of_int (- 1))
   \<and> - (2 ^ 31) \<le> (- 1 :: int) \<and> (- 1 :: int) < 2 ^ 31
   \<and> spec_wire_int (Num (- (1 / 1024))) = - 1
   \<and> Math_floor (js_mul (Num 25000000) (Num 100)) = Num (of_int 2500000000)
   \<and> spec_wire_int (Num 25000000) mod 2 ^ 32 = 2500000000 mod 2 ^ 32
   \<and> - (2 ^ 31) \<le> spec_wire_int (Num 25000000) \<and> spec_wire_int (Num 25000000) < 2 ^ 31
   \<and> \<not> isFinite (Math_floor (js_mul NaN (Num 100)))
   \<and> spec_wire_int NaN = 0
   \<and> length (replicate 28 (1 :: 8 word)) = 28
   \<and> (\<exists>p d. Uint8ArrayToInt32Array (take 12 (replicate 28 1)) = Inr p \<and> length p = 3
          \<and> Uint8ArrayToInt32Array (drop 12 (replicate 28 1)) = Inr d \<and> length d = 4
          \<and> decodeMessage (replicate 28 1) =
               Inr \<lparr>position = map fromFixedPoint p, direction = map fromFixedPoint d\<rparr>)"
proof -
  let ?pos = "[Num (1 / 1024), Num (- (1 / 1024)), Num 25000000]"
  let ?dir = "[Num 0, Num 0, NaN, Num 1]"
  have l1: "length ?pos = 3" and l2: "length ?dir = 4" by simp_all
  note th = encodeMessage_layout [OF l1 l2]
  have f1: "Math_floor (js_mul (Num (- (1 / 1024))) (Num 100)) = Num (of_int (- 1))"
    by code_simp
  have r1: "- (2 ^ 31) \<le> (- 1 :: int)" "(- 1 :: int) < 2 ^ 31" by simp_all
  have f2: "Math_floor (js_mul (Num 25000000) (Num 100)) = Num (of_int 2500000000)"
    by code_simp
  have f3: "\<not> isFinite (Math_floor (js_mul NaN (Num 100)))" by simp
  have m1: "Num (- (1 / 1024)) \<in> set (?pos @ ?dir)" and m2: "Num 25000000 \<in> set (?pos @ ?dir)"
    and m3: "NaN \<in> set (?pos @ ?dir)" by simp_all
  have ld: "length (replicate 28 (1 :: 8 word)) = 28" by simp
  have vs: "map (\<lambda>v. Num (of_int (spec_wire_int v))) (?pos @ ?dir) =
      [Num 0, Num (- 1), Num (- 1794967296), Num 0, Num 0, Num 0, Num 100]"
    by code_simp
  note c1 = th [THEN conjunct1]
  note rest = th [THEN conjunct2, THEN conjunct2, THEN conjunct2]
  note c4 = rest [THEN conjunct1, unfolded vs]
  note c5 = rest [THEN conjunct2, THEN conjunct1, THEN bspec, OF m1, THEN spec, THEN mp,
    OF conjI [OF f1 conjI [OF r1]]]
  note c6 = rest [THEN conjunct2, THEN conjunct2, THEN conjunct1, THEN bspec, OF m2, THEN spec,
    THEN mp, OF f2]
  note c7 = rest [THEN conjunct2, THEN conjunct2, THEN conjunct2, THEN conjunct1, THEN bspec,
    OF m3, THEN mp, OF f3]
  note c8 = rest [THEN conjunct2, THEN conjunct2, THEN conjunct2, THEN conjunct2, THEN spec,
    THEN mp, OF ld]
  show ?thesis
    by (intro conjI l1 l2 c1 c4 f1 r1 c5 f2 c6 [THEN conjunct1] c6 [THEN conjunct2, THEN conjunct1]
        c6 [THEN conjunct2, THEN conjunct2] f3 c7 ld c8)
qed

text \<open>
  The claim as stated fails for the finite scalar 25000000: \<^verbatim>\<open>Math.floor(value * 100)\<close> is
  2500000000, the integer on the wire is -1794967296. (The other two scalars of the
  position, \<open>1/1024\<close> and \<open>-1/1024\<close>, are sent as their floors 0 and -1.)
\<close>

theorem encodeMessage_layout_counterexample:
  "Uint8ArrayToInt32Array (encodeMessage [Num 25000000, Num (1 / 1024), Num (- (1 / 1024))]
      [Num 0, Num 0, Num 0, Num 1]) =
     Inr [Num (- 1794967296), Num 0, Num (- 1), Num 0, Num 0, Num 0, Num 100]
   \<and> map (\<lambda>v. Math_floor (js_mul v (Num 100)))
        [Num 25000000, Num (1 / 1024), Num (- (1 / 1024)), Num 0, Num 0, Num 0, Num 1] =
     [Num 2500000000, Num 0, Num (- 1), Num 0, Num 0, Num 0, Num 100]
   \<and> Uint8ArrayToInt32Array (encodeMessage [Num 25000000, Num (1 / 1024), Num (- (1 / 1024))]
      [Num 0, Num 0, Num 0, Num 1]) \<noteq>
     Inr (map (\<lambda>v. Math_floor (js_mul v (Num 100)))
            [Num 25000000, Num (1 / 1024), Num (- (1 / 1024)), Num 0, Num 0, Num 0, Num 1])
   \<and> encodeMessage [Num 25000000, Num (1 / 1024), Num (- (1 / 1024))] [Num 0, Num 0, Num 0, Num 1] =
     [0, 249, 2, 149, 0, 0, 0, 0, 255, 255, 255, 255,
      0, 0, 0, 0, 0, 0, 0, 0, 0, 0, 0, 0, 100, 0, 0, 0]"
  by code_simp

text \<open>
  Claim C9 (non-finite pose values), as amended. Nothing rejects a non-finite scalar:
  \<open>relayPositionAndDirection\<close> pushes one message of 28 bytes for every position of three and
  direction of four scalars, and in it every NaN or infinite scalar is quantised to the
  integer 0 (the \<^verbatim>\<open>Int32Array\<close> store turns the NaN or infinity that \<^verbatim>\<open>Math.floor\<close> returns
  into 0), the finite scalars being encoded as usual.
\<close>

theorem non_finite_not_rejected:
  assumes "length pos = 3" and "length dir = 4"
  shows "relay_calls (relayPositionAndDirection chunk pos dir s) =
           relay_calls s @ [Push (createChunkTopicMessage chunk) (encodeMessage pos dir)]
       \<and> length (encodeMessage pos dir) = 28
       \<and> Uint8ArrayToInt32Array (encodeMessage pos dir) =
           Inr (map (\<lambda>v. if isFinite v then int32_number (ToInt32 (toFixedPoint v)) else Num 0)
                  (pos @ dir))"
proof (intro conjI)
  show "relay_calls (relayPositionAndDirection chunk pos dir s) =
           relay_calls s @ [Push (createChunkTopicMessage chunk) (encodeMessage pos dir)]"
    by (simp add: relayPositionAndDirection_def relay_push_def)
  show "length (encodeMessage pos dir) = 28"
    using assms by (simp add: encodeMessage_eq length_Int32ArrayToUint8Array)
  have "map (\<lambda>v. int32_number (ToInt32 (toFixedPoint v))) (pos @ dir) =
        map (\<lambda>v. if isFinite v then int32_number (ToInt32 (toFixedPoint v)) else Num 0) (pos @ dir)"
    by (rule map_cong) (simp_all add: toFixedPoint_non_finite int32_number_0)
  then show "Uint8ArrayToInt32Array (encodeMessage pos dir) =
           Inr (map (\<lambda>v. if isFinite v then int32_number (ToInt32 (toFixedPoint v)) else Num 0)
                  (pos @ dir))"
    by (simp add: encodeMessage_def concatUint8Arrays_def Uint8ArrayToInt32Array_encode o_def
        del: map_append)
qed

text \<open>
  The hypotheses of C9 hold for the position \<open>(NaN, 0, Infinity)\<close> and the direction
  \<open>(0, 0, 0, 1)\<close>: the message is pushed and carries the integers 0, 0, 0, 0, 0, 0, 100.
\<close>

theorem non_finite_not_rejected_witness:
  "length [NaN, Num 0, PosInf] = 3 \<and> length [Num 0, Num 0, Num 0, Num 1] = 4
   \<and> relay_calls (relayPositionAndDirection (ChunkCoord NaN PosInf) [NaN, Num 0, PosInf]
        [Num 0, Num 0, Num 0, Num 1] initial_state) =
       [Push ''c(NaN,Infinity)'' (encodeMessage [NaN, Num 0, PosInf] [Num 0, Num 0, Num 0, Num 1])]
   \<and> length (encodeMessage [NaN, Num 0, PosInf] [Num 0, Num 0, Num 0, Num 1]) = 28
   \<and> Uint8ArrayToInt32Array (encodeMessage [NaN, Num 0, PosInf] [Num 0, Num 0, Num 0, Num 1]) =
       Inr [Num 0, Num 0, Num 0, Num 0, Num 0, Num 0, Num 100]"
proof -
  let ?pos = "[NaN, Num 0, PosInf]"
  let ?dir = "[Num 0, Num 0, Num 0, Num 1]"
  have l1: "length ?pos = 3" and l2: "length ?dir = 4" by simp_all
  note th = non_finite_not_rejected [OF l1 l2, of "ChunkCoord NaN PosInf" initial_state]
  have t: "createChunkTopicMessage (ChunkCoord NaN PosInf) = ''c(NaN,Infinity)''"
    by code_simp
  have r: "relay_calls initial_state = []" by (simp add: initial_state_def)
  have v: "map (\<lambda>v. if isFinite v then int32_number (ToInt32 (toFixedPoint v)) else Num 0)
             (?pos @ ?dir) = [Num 0, Num 0, Num 0, Num 0, Num 0, Num 0, Num 100]"
    by code_simp
  show ?thesis
    using th l1 l2 unfolding t r v by simp
qed

text \<open>
  The claim as stated fails for the pose sample at position \<open>(NaN, 0, Infinity)\<close>: the
  periodic publication pushes a message for it, with zeros in place of the two scalars.
\<close>

theorem non_finite_not_rejected_counterexample:
  "\<not> isFinite NaN \<and> \<not> isFinite PosInf
   \<and> relay_calls (relaySubscription (VoxelCoord NaN (Num 0) PosInf) (VoxelCoord NaN (Num 0) PosInf)
        (Quaternion (Num 0) (Num 0) (Num 0) (Num 1)) initial_state) =
       [Push ''c(NaN,Infinity)''
          [0, 0, 0, 0, 0, 0, 0, 0, 0, 0, 0, 0, 0, 0, 0, 0, 0, 0, 0, 0, 0, 0, 0, 0, 100, 0, 0, 0]]"
  by code_simp

section \<open>Claims about inbound messages\<close>

text \<open>
  Claim C4 (payload length), as amended. The handler has no length check and never fails:
  a payload of any length is handled as its first 28 bytes are, a shorter payload being
  read as if it were extended with zero bytes. So a payload of another length than 28 is
  dropped only when the self filter or the visibility filter drops it.
\<close>

theorem no_length_check:
  "(\<exists>s'. rxMessage connectedAddress now data address s = Inr s')
   \<and> rxMessage connectedAddress now data address s =
       rxMessage connectedAddress now (take 28 (data @ replicate 28 0)) address s"
proof
  obtain x y z q0 q1 q2 q3 where
    "decodeMessage data = Inr \<lparr>position = [x, y, z], direction = [q0, q1, q2, q3]\<rparr>"
    using decodeMessage_shape by blast
  then show "\<exists>s'. rxMessage connectedAddress now data address s = Inr s'"
    by (simp add: rxMessage_unfold)
next
  show "rxMessage connectedAddress now data address s =
       rxMessage connectedAddress now (take 28 (data @ replicate 28 0)) address s"
    by (simp only: rxMessage_def decodeMessage_first_28)
qed

text \<open>
  The claim as stated fails for a payload of 29 bytes and for the empty payload, sent by
  another address while chunk \<open>(0, 0)\<close> is visible: each creates a player.
\<close>

theorem no_length_check_counterexample:
  "length ([232, 3, 0, 0, 244, 1, 0, 0, 232, 3, 0, 0, 0, 0, 0, 0, 0, 0, 0, 0, 0, 0, 0, 0, 100, 0, 0, 0, 7] :: Uint8Array) = 29
   \<and> rxMessage (Some ''0xme'') 1000
        [232, 3, 0, 0, 244, 1, 0, 0, 232, 3, 0, 0, 0, 0, 0, 0, 0, 0, 0, 0, 0, 0, 0, 0, 100, 0, 0, 0, 7]
        ''0xpeer'' (initial_state\<lparr>visibleChunks := [(ChunkCoord (Num 0) (Num 0), True)]\<rparr>) =
       Inr (initial_state\<lparr>visibleChunks := [(ChunkCoord (Num 0) (Num 0), True)],
              entities := [''0xpeer''],
              PlayerPosition := [(0, VoxelCoord (Num 10) (Num 5) (Num 10))],
              PlayerDirection := [(0, Quaternion (Num 0) (Num 0) (Num 0) (Num 1))],
              PlayerLastMessage := [(0, 1000)]\<rparr>)
   \<and> rxMessage (Some ''0xme'') 1000
        [232, 3, 0, 0, 244, 1, 0, 0, 232, 3, 0, 0, 0, 0, 0, 0, 0, 0, 0, 0, 0, 0, 0, 0, 100, 0, 0, 0, 7]
        ''0xpeer'' (initial_state\<lparr>visibleChunks := [(ChunkCoord (Num 0) (Num 0), True)]\<rparr>) \<noteq>
       Inr (initial_state\<lparr>visibleChunks := [(ChunkCoord (Num 0) (Num 0), True)]\<rparr>)
   \<and> rxMessage (Some ''0xme'') 1000 [] ''0xpeer''
        (initial_state\<lparr>visibleChunks := [(ChunkCoord (Num 0) (Num 0), True)]\<rparr>) =
       Inr (initial_state\<lparr>visibleChunks := [(ChunkCoord (Num 0) (Num 0), True)],
              entities := [''0xpeer''],
              PlayerPosition := [(0, VoxelCoord (Num 0) (Num 0) (Num 0))],
              PlayerDirection := [(0, Quaternion (Num 0) (Num 0) (Num 0) (Num 0))],
              PlayerLastMessage := [(0, 1000)]\<rparr>)"
  by code_simp




text \<open>
  Claim C6 (self-message suppression). A message whose sender is the connected address
  leaves the state as it is, whatever its payload.
\<close>

theorem self_message_suppressed:
  "rxMessage (Some address) now data address s = Inr s"
proof -
  obtain x y z q0 q1 q2 q3 where
    "decodeMessage data = Inr \<lparr>position = [x, y, z], direction = [q0, q1, q2, q3]\<rparr>"
    using decodeMessage_shape by blast
  then show ?thesis by (simp add: rxMessage_unfold)
qed

section \<open>Claims about the lifetime of remote players\<close>

text \<open>
  Claim C7 (staleness eviction). The sweep runs every 2000 ms with a timeout of 1000 ms.
  It always completes; it removes all four components of every entity whose
  \<open>PlayerLastMessage\<close> value \<open>t\<close> satisfies \<open>now - t > TIMEOUT\<close>, and leaves the components of
  every other entity, and the rest of the state, as they are.
\<close>

theorem liveness_sweep:
  "UNRESPONSIVE_PLAYER_CLEANUP = 2000 \<and> TIMEOUT = 1000
   \<and> (\<exists>s'. rxCleanup now s = Inr s'
        \<and> (\<forall>e t. getComponentValue (PlayerLastMessage s) e = Some t \<and> now - t > TIMEOUT
               \<longrightarrow> player_state s' e = (None, None, None, None))
        \<and> (\<forall>e. \<not> (\<exists>t. getComponentValue (PlayerLastMessage s) e = Some t \<and> now - t > TIMEOUT)
               \<longrightarrow> player_state s' e = player_state s e)
        \<and> entities s' = entities s \<and> visibleChunks s' = visibleChunks s
        \<and> relay_calls s' = relay_calls s)"
proof -
  let ?ps = "component_entities (PlayerLastMessage s)"
  have "\<forall>p\<in>set ?ps. getComponentValue (PlayerLastMessage s) p \<noteq> None"
    by (simp add: component_entities_set)
  from cleanup_loop_spec [OF distinct_component_entities this, of "now - TIMEOUT"]
  obtain s' where s': "cleanup_loop (now - TIMEOUT) ?ps s = Inr s'"
    "\<And>e. player_state s' e =
       (if e \<in> set ?ps \<and> (\<exists>v. getComponentValue (PlayerLastMessage s) e = Some v \<and> v < now - TIMEOUT)
        then (None, None, None, None) else player_state s e)"
    "entities s' = entities s" "visibleChunks s' = visibleChunks s"
    "relay_calls s' = relay_calls s"
    by blast
  have r: "rxCleanup now s = Inr s'"
    using s'(1) by (simp add: rxCleanup_def Let_def)
  have a: "\<forall>e t. getComponentValue (PlayerLastMessage s) e = Some t \<and> now - t > TIMEOUT
               \<longrightarrow> player_state s' e = (None, None, None, None)"
    using s'(2) by (auto simp add: component_entities_set)
  have b: "\<forall>e. \<not> (\<exists>t. getComponentValue (PlayerLastMessage s) e = Some t \<and> now - t > TIMEOUT)
               \<longrightarrow> player_state s' e = player_state s e"
  proof (intro allI impI)
    fix e assume n: "\<not> (\<exists>t. getComponentValue (PlayerLastMessage s) e = Some t \<and> now - t > TIMEOUT)"
    then have "\<not> (\<exists>v. getComponentValue (PlayerLastMessage s) e = Some v \<and> v < now - TIMEOUT)"
      by auto
    then show "player_state s' e = player_state s e" using s'(2) [of e] by auto
  qed
  show ?thesis
    using r a b s'(3,4,5) by (simp add: UNRESPONSIVE_PLAYER_CLEANUP_def TIMEOUT_def)
qed

text \<open>
  The hypotheses of C7 hold at time 5000 for two entities last heard of at 3000 and at
  4500: the first is removed, the second is kept.
\<close>

theorem liveness_sweep_witness:
  "getComponentValue (PlayerLastMessage
      (initial_state\<lparr>PlayerPosition := [(0, VoxelCoord (Num 1) (Num 2) (Num 3))],
                     PlayerLastMessage := [(0, 3000), (1, 4500)]\<rparr>)) 0 = Some 3000
   \<and> 5000 - 3000 > TIMEOUT
   \<and> \<not> (\<exists>t. getComponentValue (PlayerLastMessage
      (initial_state\<lparr>PlayerPosition := [(0, VoxelCoord (Num 1) (Num 2) (Num 3))],
                     PlayerLastMessage := [(0, 3000), (1, 4500)]\<rparr>)) 1 = Some t \<and> 5000 - t > TIMEOUT)
   \<and> (\<exists>s'. rxCleanup 5000
          (initial_state\<lparr>PlayerPosition := [(0, VoxelCoord (Num 1) (Num 2) (Num 3))],
                         PlayerLastMessage := [(0, 3000), (1, 4500)]\<rparr>) = Inr s'
        \<and> player_state s' 0 = (None, None, None, None)
        \<and> player_state s' 1 = (None, None, None, Some 4500))"
proof -
  let ?s = "initial_state\<lparr>PlayerPosition := [(0, VoxelCoord (Num 1) (Num 2) (Num 3))],
                          PlayerLastMessage := [(0, 3000), (1, 4500)]\<rparr>"
  have h0: "getComponentValue (PlayerLastMessage ?s) 0 = Some 3000"
    by (simp add: getComponentValue_def)
  have t0: "5000 - 3000 > TIMEOUT" by (simp add: TIMEOUT_def)
  have h1: "\<not> (\<exists>t. getComponentValue (PlayerLastMessage ?s) 1 = Some t \<and> 5000 - t > TIMEOUT)"
    by (simp add: getComponentValue_def TIMEOUT_def)
  have p1: "player_state ?s 1 = (None, None, None, Some 4500)"
    by (simp add: player_state_def getComponentValue_def initial_state_def)
  from liveness_sweep [of 5000 ?s] obtain s' where s': "rxCleanup 5000 ?s = Inr s'"
    "\<forall>e t. getComponentValue (PlayerLastMessage ?s) e = Some t \<and> 5000 - t > TIMEOUT
               \<longrightarrow> player_state s' e = (None, None, None, None)"
    "\<forall>e. \<not> (\<exists>t. getComponentValue (PlayerLastMessage ?s) e = Some t \<and> 5000 - t > TIMEOUT)
               \<longrightarrow> player_state s' e = player_state ?s e"
    by blast
  have a: "player_state s' 0 = (None, None, None, None)"
    using s'(2) h0 t0 by blast
  have b: "player_state s' 1 = (None, None, None, Some 4500)"
    using s'(3) h1 p1 by metis
  show ?thesis
    using h0 t0 h1 s'(1) a b by blast
qed

text \<open>
  Claim C10 (the chunk component is never set). In every state the system reaches from
  its initial state, \<open>PlayerRelayerChunkPosition\<close> is empty: the message handler sets
  exactly \<open>PlayerPosition\<close>, \<open>PlayerDirection\<close> and \<open>PlayerLastMessage\<close> of the sender's entity
  (or changes nothing). Hence the query of the removed-chunk subscription matches no
  entity and the subscription leaves every player's components as they are, and no event
  other than the liveness sweep takes a component away from an entity.
\<close>

theorem chunk_position_never_set:
  assumes "run connectedAddress evs initial_state = Inr s"
  shows "PlayerRelayerChunkPosition s = []
       \<and> (\<forall>chunk. removedPlayers s chunk = []
            \<and> (\<forall>e. player_state (removedChunksSubcription chunk s) e = player_state s e))
       \<and> (\<forall>now data address s'. rxMessage connectedAddress now data address s = Inr s' \<longrightarrow>
            PlayerRelayerChunkPosition s' = []
            \<and> (s' = s \<or> (\<exists>entity p q.
                  PlayerPosition s' = setComponent (PlayerPosition s) entity p
                \<and> PlayerDirection s' = setComponent (PlayerDirection s) entity q
                \<and> PlayerLastMessage s' = setComponent (PlayerLastMessage s) entity now)))
       \<and> (\<forall>ev s' e. handle connectedAddress ev s = Inr s' \<and> (\<forall>now. ev \<noteq> CleanupTick now) \<longrightarrow>
            (Has (PlayerPosition s) e \<longrightarrow> Has (PlayerPosition s') e)
          \<and> (Has (PlayerDirection s) e \<longrightarrow> Has (PlayerDirection s') e)
          \<and> (Has (PlayerLastMessage s) e \<longrightarrow> Has (PlayerLastMessage s') e))"
proof -
  have "PlayerRelayerChunkPosition initial_state = []" by (simp add: initial_state_def)
  from run_chunk_empty [OF this assms] have e: "PlayerRelayerChunkPosition s = []" .
  have a: "\<forall>chunk. removedPlayers s chunk = []
            \<and> (\<forall>e. player_state (removedChunksSubcription chunk s) e = player_state s e)"
    by (simp add: removedPlayers_empty [OF e] removedChunksSubcription_empty [OF e] player_state_def)
  have b: "\<forall>now data address s'. rxMessage connectedAddress now data address s = Inr s' \<longrightarrow>
            PlayerRelayerChunkPosition s' = []
            \<and> (s' = s \<or> (\<exists>entity p q.
                  PlayerPosition s' = setComponent (PlayerPosition s) entity p
                \<and> PlayerDirection s' = setComponent (PlayerDirection s) entity q
                \<and> PlayerLastMessage s' = setComponent (PlayerLastMessage s) entity now))"
    using rxMessage_effect e by metis
  have c: "\<forall>ev s' e. handle connectedAddress ev s = Inr s' \<and> (\<forall>now. ev \<noteq> CleanupTick now) \<longrightarrow>
            (Has (PlayerPosition s) e \<longrightarrow> Has (PlayerPosition s') e)
          \<and> (Has (PlayerDirection s) e \<longrightarrow> Has (PlayerDirection s') e)
          \<and> (Has (PlayerLastMessage s) e \<longrightarrow> Has (PlayerLastMessage s') e)"
    using handle_keeps_players [OF e] by blast
  from e a b c show ?thesis by blast
qed

text \<open>
  The hypothesis of C10 holds for the run of a position sample at the origin followed by a
  message of a peer at \<open>(10, 5, 10)\<close>, which creates entity 0.
\<close>

theorem chunk_position_never_set_witness:
  "\<exists>s. run (Some ''0xme'')
         [PositionSample (VoxelCoord (Num 0) (Num 0) (Num 0)),
          RelayMessage 1000
            [232, 3, 0, 0, 244, 1, 0, 0, 232, 3, 0, 0, 0, 0, 0, 0, 0, 0, 0, 0, 0, 0, 0, 0, 100, 0, 0, 0]
            ''0xpeer''] initial_state = Inr s
     \<and> PlayerRelayerChunkPosition s = []
     \<and> Has (PlayerPosition s) 0 \<and> Has (PlayerDirection s) 0 \<and> Has (PlayerLastMessage s) 0
     \<and> removedPlayers s (ChunkCoord (Num 0) (Num 0)) = []
     \<and> player_state (removedChunksSubcription (ChunkCoord (Num 0) (Num 0)) s) 0 = player_state s 0
     \<and> (\<exists>s'. rxMessage (Some ''0xme'') 2000 [] ''0xpeer'' s = Inr s'
            \<and> PlayerRelayerChunkPosition s' = [])
     \<and> (\<exists>s'. handle (Some ''0xme'') (PositionSample (VoxelCoord (Num 200) (Num 0) (Num 0))) s = Inr s'
            \<and> Has (PlayerPosition s') 0 \<and> Has (PlayerDirection s') 0 \<and> Has (PlayerLastMessage s') 0)"
proof -
  let ?evs = "[PositionSample (VoxelCoord (Num 0) (Num 0) (Num 0)),
          RelayMessage 1000
            [232, 3, 0, 0, 244, 1, 0, 0, 232, 3, 0, 0, 0, 0, 0, 0, 0, 0, 0, 0, 0, 0, 0, 0, 100, 0, 0, 0]
            ''0xpeer'']"
  let ?s = "\<lparr>entities = [''0xpeer''],
     PlayerPosition = [(0, VoxelCoord (Num 10) (Num 5) (Num 10))],
     PlayerDirection = [(0, Quaternion (Num 0) (Num 0) (Num 0) (Num 1))],
     PlayerRelayerChunkPosition = [], PlayerLastMessage = [(0, 1000)],
     visibleChunks =
       [(ChunkCoord (Num (- 1)) (Num (- 1)), True), (ChunkCoord (Num (- 1)) (Num 0), True),
        (ChunkCoord (Num (- 1)) (Num 1), True), (ChunkCoord (Num 0) (Num (- 1)), True),
        (ChunkCoord (Num 0) (Num 0), True), (ChunkCoord (Num 0) (Num 1), True),
        (ChunkCoord (Num 1) (Num (- 1)), True), (ChunkCoord (Num 1) (Num 0), True),
        (ChunkCoord (Num 1) (Num 1), True)],
     relay_calls =
       [Subscribe ''c(-1,-1)'', Subscribe ''c(-1,0)'', Subscribe ''c(-1,1)'',
        Subscribe ''c(0,-1)'', Subscribe ''c(0,0)'', Subscribe ''c(0,1)'',
        Subscribe ''c(1,-1)'', Subscribe ''c(1,0)'', Subscribe ''c(1,1)'']\<rparr>"
  have r: "run (Some ''0xme'') ?evs initial_state = Inr ?s"
    by code_simp
  note th = chunk_position_never_set [OF r]
  have h: "Has (PlayerPosition ?s) 0" "Has (PlayerDirection ?s) 0" "Has (PlayerLastMessage ?s) 0"
    by (simp_all add: Has_def)
  obtain s2 where s2: "rxMessage (Some ''0xme'') 2000 [] ''0xpeer'' ?s = Inr s2"
    using rxMessage_total by blast
  have c2: "PlayerRelayerChunkPosition s2 = []"
    using th s2 by blast
  obtain s3 where s3: "handle (Some ''0xme'') (PositionSample (VoxelCoord (Num 200) (Num 0) (Num 0))) ?s = Inr s3"
    by simp
  have n: "\<forall>now. PositionSample (VoxelCoord (Num 200) (Num 0) (Num 0)) \<noteq> CleanupTick now"
    by simp
  have c3: "Has (PlayerPosition s3) 0 \<and> Has (PlayerDirection s3) 0 \<and> Has (PlayerLastMessage s3) 0"
    using th s3 n h by blast
  have c1: "PlayerRelayerChunkPosition ?s = []
      \<and> removedPlayers ?s (ChunkCoord (Num 0) (Num 0)) = []
      \<and> player_state (removedChunksSubcription (ChunkCoord (Num 0) (Num 0)) ?s) 0 = player_state ?s 0"
    using th by blast
  show ?thesis
    using r h c1 s2 c2 s3 c3 by blast
qed

text \<open>
  Claim C3 (chunk-exit eviction) does not hold of the code. The observer is at the origin;
  a peer reports the position \<open>(10, 5, 10)\<close>, in chunk \<open>(0, 0)\<close>, and is tracked; the
  observer moves to \<open>(200, 0, 0)\<close>, chunk \<open>(0, 0)\<close> leaves the visible chunks and its topic
  is unsubscribed, but the peer keeps its position, direction and last-message time.
  (\<open>removedChunksSubcription_players\<close> shows that the subscription would remove an entity
  whose \<open>PlayerRelayerChunkPosition\<close> is the removed chunk; no handler sets that component.)
\<close>

theorem chunk_exit_keeps_player:
  "(case run (Some ''0xme'')
       [PositionSample (VoxelCoord (Num 0) (Num 0) (Num 0)),
        RelayMessage 1000
          [232, 3, 0, 0, 244, 1, 0, 0, 232, 3, 0, 0, 0, 0, 0, 0, 0, 0, 0, 0, 0, 0, 0, 0, 100, 0, 0, 0]
          ''0xpeer'',
        PositionSample (VoxelCoord (Num 200) (Num 0) (Num 0))] initial_state of
      Inl e \<Rightarrow> False
    | Inr s \<Rightarrow>
        player_state s 0 =
          (Some (VoxelCoord (Num 10) (Num 5) (Num 10)),
           Some (Quaternion (Num 0) (Num 0) (Num 0) (Num 1)), None, Some 1000)
        \<and> pixelToChunkCoord (Num 10, Num 10) RELAY_CHUNK_SIZE = ChunkCoord (Num 0) (Num 0)
        \<and> map_of (visibleChunks s) (ChunkCoord (Num 0) (Num 0)) = None
        \<and> Unsubscribe ''c(0,0)'' \<in> set (relay_calls s))"
  by code_simp

section \<open>Claims about the visible area\<close>

text \<open>
  Claim C8 (scenario), as amended. With chunk size and half length 64, an observer at
  \<open>(0, 0, 0)\<close> has the area \<open>[-64, -64, 128, 128]\<close>, whose chunks are the nine chunks
  \<open>(-1, -1)\<close> to \<open>(1, 1)\<close>. After the observer has moved to \<open>(200, 0, 0)\<close> the area is
  \<open>[136, -64, 128, 128]\<close> with the nine chunks \<open>(2, -1)\<close> to \<open>(4, 1)\<close>: all nine former
  chunks are removed and the nine new ones are added.
\<close>

theorem visible_chunks_scenario:
  "currentArea (VoxelCoord (Num 0) (Num 0) (Num 0)) = Area (Num (- 64)) (Num (- 64)) (Num 128) (Num 128)
   \<and> map fst (getChunksInArea (Area (Num (- 64)) (Num (- 64)) (Num 128) (Num 128)) RELAY_CHUNK_SIZE) =
       [ChunkCoord (Num (- 1)) (Num (- 1)), ChunkCoord (Num (- 1)) (Num 0), ChunkCoord (Num (- 1)) (Num 1),
        ChunkCoord (Num 0) (Num (- 1)), ChunkCoord (Num 0) (Num 0), ChunkCoord (Num 0) (Num 1),
        ChunkCoord (Num 1) (Num (- 1)), ChunkCoord (Num 1) (Num 0), ChunkCoord (Num 1) (Num 1)]
   \<and> currentArea (VoxelCoord (Num 200) (Num 0) (Num 0)) = Area (Num 136) (Num (- 64)) (Num 128) (Num 128)
   \<and> map fst (getChunksInArea (Area (Num 136) (Num (- 64)) (Num 128) (Num 128)) RELAY_CHUNK_SIZE) =
       [ChunkCoord (Num 2) (Num (- 1)), ChunkCoord (Num 2) (Num 0), ChunkCoord (Num 2) (Num 1),
        ChunkCoord (Num 3) (Num (- 1)), ChunkCoord (Num 3) (Num 0), ChunkCoord (Num 3) (Num 1),
        ChunkCoord (Num 4) (Num (- 1)), ChunkCoord (Num 4) (Num 0), ChunkCoord (Num 4) (Num 1)]
   \<and> subtract (getChunksInArea (Area (Num (- 64)) (Num (- 64)) (Num 128) (Num 128)) RELAY_CHUNK_SIZE)
        (getChunksInArea (Area (Num 136) (Num (- 64)) (Num 128) (Num 128)) RELAY_CHUNK_SIZE) =
       [ChunkCoord (Num (- 1)) (Num (- 1)), ChunkCoord (Num (- 1)) (Num 0), ChunkCoord (Num (- 1)) (Num 1),
        ChunkCoord (Num 0) (Num (- 1)), ChunkCoord (Num 0) (Num 0), ChunkCoord (Num 0) (Num 1),
        ChunkCoord (Num 1) (Num (- 1)), ChunkCoord (Num 1) (Num 0), ChunkCoord (Num 1) (Num 1)]
   \<and> subtract (getChunksInArea (Area (Num 136) (Num (- 64)) (Num 128) (Num 128)) RELAY_CHUNK_SIZE)
        (getChunksInArea (Area (Num (- 64)) (Num (- 64)) (Num 128) (Num 128)) RELAY_CHUNK_SIZE) =
       [ChunkCoord (Num 2) (Num (- 1)), ChunkCoord (Num 2) (Num 0), ChunkCoord (Num 2) (Num 1),
        ChunkCoord (Num 3) (Num (- 1)), ChunkCoord (Num 3) (Num 0), ChunkCoord (Num 3) (Num 1),
        ChunkCoord (Num 4) (Num (- 1)), ChunkCoord (Num 4) (Num 0), ChunkCoord (Num 4) (Num 1)]"
  by code_simp

text \<open>
  The claim as stated fails: chunk \<open>(-2, -2)\<close> is not among the initial chunks, chunk
  \<open>(0, 0)\<close> is among the removed ones and chunk \<open>(4, 0)\<close> among the added ones.
\<close>

theorem visible_chunks_scenario_counterexample:
  "ChunkCoord (Num (- 2)) (Num (- 2)) \<notin> set (map fst
      (getChunksInArea (currentArea (VoxelCoord (Num 0) (Num 0) (Num 0))) RELAY_CHUNK_SIZE))
   \<and> ChunkCoord (Num 0) (Num 0) \<in> set (subtract
        (getChunksInArea (currentArea (VoxelCoord (Num 0) (Num 0) (Num 0))) RELAY_CHUNK_SIZE)
        (getChunksInArea (currentArea (VoxelCoord (Num 200) (Num 0) (Num 0))) RELAY_CHUNK_SIZE))
   \<and> ChunkCoord (Num 4) (Num 0) \<in> set (subtract
        (getChunksInArea (currentArea (VoxelCoord (Num 200) (Num 0) (Num 0))) RELAY_CHUNK_SIZE)
        (getChunksInArea (currentArea (VoxelCoord (Num 0) (Num 0) (Num 0))) RELAY_CHUNK_SIZE))"
  by code_simp

end
